theory Spec2Isabelle
  imports Main "HOL-Library.Sublist"
begin

section \<open>JavaScript values the code relies on\<close>

text \<open>
  A thrown value. Every error the modelled code throws or receives is an instance of
  JavaScript's \<^verbatim>\<open>Error\<close>: \<^verbatim>\<open>new Error(msg)\<close>, the \<^verbatim>\<open>TypeError\<close> of a rejected
  \<^verbatim>\<open>fetch\<close>, the \<^verbatim>\<open>SyntaxError\<close> of \<^verbatim>\<open>JSON.parse\<close>.
\<close>

datatype js_error = Error string | TypeError string | SyntaxError string

text \<open>\<^verbatim>\<open>error.message\<close> and \<^verbatim>\<open>String(error)\<close>.\<close>

fun error_message :: "js_error \<Rightarrow> string" where
  "error_message (Error m) = m"
| "error_message (TypeError m) = m"
| "error_message (SyntaxError m) = m"

fun String_of_error :: "js_error \<Rightarrow> string" where
  "String_of_error (Error m) = ''Error: '' @ m"
| "String_of_error (TypeError m) = ''TypeError: '' @ m"
| "String_of_error (SyntaxError m) = ''SyntaxError: '' @ m"

text \<open>\<^verbatim>\<open>haystack.includes(needle)\<close>.\<close>

fun includes_str :: "string \<Rightarrow> string \<Rightarrow> bool" where
  "includes_str [] needle = (needle = [])"
| "includes_str (c # cs) needle = (prefix needle (c # cs) \<or> includes_str cs needle)"

text \<open>A number in a template literal: its decimal digits.\<close>

fun string_of_nat :: "nat \<Rightarrow> string" where
  "string_of_nat n =
     (if n < 10 then [char_of (48 + n)]
      else string_of_nat (n div 10) @ [char_of (48 + n mod 10)])"

declare string_of_nat.simps [simp del]

text \<open>A string in a boolean position: the empty string is falsy.\<close>

definition truthy :: "string \<Rightarrow> bool" where
  "truthy s = (s \<noteq> [])"

text \<open>\<^verbatim>\<open>`${v}`\<close> for a value that may be \<^verbatim>\<open>undefined\<close>.\<close>

fun template :: "string option \<Rightarrow> string" where
  "template None = ''undefined''"
| "template (Some s) = s"

text \<open>
  The character classes of regular expressions and of \<^verbatim>\<open>trim\<close>, on the characters an
  Isabelle string can hold (code points below 256): \<^verbatim>\<open>\s\<close> is tab, line feed, vertical
  tab, form feed, carriage return, space and no-break space; a line terminator, which
  \<^verbatim>\<open>.\<close> does not match and before which \<^verbatim>\<open>$\<close> holds under the flag \<^verbatim>\<open>m\<close>, is line
  feed or carriage return; \<^verbatim>\<open>\d\<close> is a decimal digit.
\<close>

definition is_space :: "char \<Rightarrow> bool" where
  "is_space c = (of_char c \<in> {9, 10, 11, 12, 13, 32, 160 :: nat})"

definition is_line_terminator :: "char \<Rightarrow> bool" where
  "is_line_terminator c = (of_char c \<in> {10, 13 :: nat})"

definition is_digit :: "char \<Rightarrow> bool" where
  "is_digit c = (48 \<le> (of_char c :: nat) \<and> (of_char c :: nat) \<le> 57)"

text \<open>\<^verbatim>\<open>s.trim()\<close>.\<close>

definition trim :: "string \<Rightarrow> string" where
  "trim s = rev (dropWhile is_space (rev (dropWhile is_space s)))"

section \<open>Data model (lib/agent-api.ts)\<close>

text \<open>
  The interfaces of the API client. A field keeps its name in the source unless two
  interfaces share it: \<^verbatim>\<open>messages\<close> of \<^verbatim>\<open>ChatSession\<close> is \<open>session_messages\<close>,
  \<^verbatim>\<open>session_id\<close> and \<^verbatim>\<open>message\<close> of \<^verbatim>\<open>SessionResponse\<close> are \<open>created_session_id\<close> and
  \<open>created_message\<close>, \<^verbatim>\<open>session_id\<close> of \<^verbatim>\<open>MessageResponse\<close> is \<open>reply_session_id\<close>, and the
  fields of the scrape request and response carry the prefix \<open>scrape\<close>. An optional field
  is an option.
\<close>

datatype role = User | Assistant

record ChatMessage =
  role :: role
  content :: string

record ChatSession =
  session_id :: string
  session_messages :: "ChatMessage list"
  title :: "string option"
  createdAt :: "string option"
  lastMessageAt :: "string option"

record PersonalitySettings =
  type :: string
  custom :: "(string \<times> string) list option"

record BackgroundInfo =
  items :: "string list"

record ToolSettings =
  background_search :: bool
  memory_storage :: bool
  memory_retrieval :: bool
  web_search :: bool

record OrganizationSettings =
  name :: string
  personality :: PersonalitySettings
  background :: BackgroundInfo
  tools :: ToolSettings

record SessionResponse =
  created_session_id :: string
  created_message :: string

record MessageResponse =
  reply_session_id :: string
  response :: string

record DeleteResult =
  success :: bool
  message :: string

record WebsiteScrapeRequest =
  scrape_url :: string
  max_pages :: "nat option"
  max_items :: "nat option"

datatype scrape_status = Scrape_success | Scrape_error

record WebsiteScrapeResponse =
  scrape_status :: scrape_status
  scrape_message :: string
  background_items :: "string list"

type_synonym presets = "(string \<times> string) list"

section \<open>The network and the browser\<close>

datatype http_method = GET | POST | DELETE

text \<open>
  The argument of \<^verbatim>\<open>JSON.stringify\<close> that becomes a request body. The session id of a
  chat body is an option, since the context sends its \<^verbatim>\<open>string | null\<close>.
\<close>

datatype request_body =
    No_body
  | Session_body OrganizationSettings
  | Message_body "string option" string
  | Scrape_body WebsiteScrapeRequest

record request =
  req_method :: http_method
  url :: string
  headers :: "(string \<times> string) list"
  body :: request_body

record Response =
  status :: nat
  statusText :: string
  body_text :: string

definition ok :: "Response \<Rightarrow> bool" where
  "ok r = (200 \<le> status r \<and> status r \<le> 299)"

datatype fetch_result = Rejected js_error | Resolved Response

text \<open>
  The network answers a request knowing the requests issued before it, so that the same
  request can be answered differently over time.
\<close>

type_synonym network = "request list \<Rightarrow> request \<Rightarrow> fetch_result"

text \<open>
  What the code takes from its surroundings: the environment variable, the clock, and
  JSON decoding. \<^verbatim>\<open>response.json()\<close> and \<^verbatim>\<open>JSON.parse\<close> are not modelled character by
  character: each decoder stands for parsing a body and reading it at the TypeScript type
  the code declares for it, and returns the error that parsing throws.
\<close>

record environment =
  NEXT_PUBLIC_API_URL :: "string option"
  Date_now :: int
  toISOString :: "int \<Rightarrow> string"
  json_SessionResponse :: "string \<Rightarrow> js_error + SessionResponse"
  json_MessageResponse :: "string \<Rightarrow> js_error + MessageResponse"
  json_ChatSession :: "string \<Rightarrow> js_error + ChatSession"
  json_ChatSessions :: "string \<Rightarrow> js_error + ChatSession list"
  json_presets :: "string \<Rightarrow> js_error + presets"
  json_WebsiteScrapeResponse :: "string \<Rightarrow> js_error + WebsiteScrapeResponse"
  json_string_array :: "string \<Rightarrow> string list option"
  json_tools :: "string \<Rightarrow> (bool option \<times> bool option \<times> bool option \<times> bool option) option"

record CurrentSettings =
  organization :: OrganizationSettings

text \<open>The React state of \<^verbatim>\<open>AgentProvider\<close>.\<close>

record AgentState =
  isInitialized :: bool
  isLoading :: bool
  sessionId :: "string option"
  messages :: "ChatMessage list"
  sessions :: "ChatSession list"
  personalityPresets :: presets
  currentSettings :: CurrentSettings

text \<open>
  One request on the wire, with the context state that is committed, and so on screen,
  while the request is pending.
\<close>

record exchange =
  sent :: request
  on_screen :: AgentState

text \<open>The local React state of the chat page that \<^verbatim>\<open>handleSubmit\<close> reads and writes.\<close>

record PageState =
  input :: string
  page_messages :: "ChatMessage list"
  page_isLoading :: bool

record world =
  agent :: AgentState
  page :: PageState
  localStorage :: "string \<rightharpoonup> string"
  traffic :: "exchange list"
  alerts :: "string list"

definition fetch :: "network \<Rightarrow> request \<Rightarrow> world \<Rightarrow> fetch_result \<times> world" where
  "fetch net req w =
     (net (map sent (traffic w)) req,
      w\<lparr>traffic := traffic w @ [\<lparr>sent = req, on_screen = agent w\<rparr>]\<rparr>)"

section \<open>The API client (lib/agent-api.ts)\<close>

definition API_BASE_URL :: "environment \<Rightarrow> string" where
  "API_BASE_URL env =
     (case NEXT_PUBLIC_API_URL env of
        Some u \<Rightarrow> if truthy u then u else ''ec2-54-235-6-245.compute-1.amazonaws.com''
      | None \<Rightarrow> ''ec2-54-235-6-245.compute-1.amazonaws.com'')"

definition json_headers :: "(string \<times> string) list" where
  "json_headers = [(''Content-Type'', ''application/json'')]"

definition createSession ::
  "environment \<Rightarrow> network \<Rightarrow> OrganizationSettings \<Rightarrow> world \<Rightarrow> (js_error + SessionResponse) \<times> world" where
  "createSession env net settings w =
     (case fetch net \<lparr>req_method = POST, url = API_BASE_URL env @ ''/sessions'',
                       headers = json_headers, body = Session_body settings\<rparr> w of
        (Rejected e, w') \<Rightarrow> (Inl e, w')
      | (Resolved rsp, w') \<Rightarrow>
          if \<not> ok rsp then (Inl (Error (''Failed to create session: '' @ statusText rsp)), w')
          else (json_SessionResponse env (body_text rsp), w'))"

definition sendMessage ::
  "environment \<Rightarrow> network \<Rightarrow> string \<Rightarrow> string \<Rightarrow> world \<Rightarrow> (js_error + MessageResponse) \<times> world" where
  "sendMessage env net sid msg w =
     (case fetch net \<lparr>req_method = POST, url = API_BASE_URL env @ ''/chat'',
                       headers = json_headers, body = Message_body (Some sid) msg\<rparr> w of
        (Rejected e, w') \<Rightarrow> (Inl e, w')
      | (Resolved rsp, w') \<Rightarrow>
          if \<not> ok rsp then (Inl (Error (''Failed to send message: '' @ statusText rsp)), w')
          else (json_MessageResponse env (body_text rsp), w'))"

definition getSession ::
  "environment \<Rightarrow> network \<Rightarrow> string \<Rightarrow> world \<Rightarrow> (js_error + ChatSession) \<times> world" where
  "getSession env net sid w =
     (case fetch net \<lparr>req_method = GET, url = API_BASE_URL env @ ''/sessions/'' @ sid,
                       headers = [], body = No_body\<rparr> w of
        (Rejected e, w') \<Rightarrow> (Inl e, w')
      | (Resolved rsp, w') \<Rightarrow>
          if \<not> ok rsp then (Inl (Error (''Failed to get session: '' @ statusText rsp)), w')
          else (json_ChatSession env (body_text rsp), w'))"

definition getPersonalityPresets ::
  "environment \<Rightarrow> network \<Rightarrow> world \<Rightarrow> (js_error + presets) \<times> world" where
  "getPersonalityPresets env net w =
     (case fetch net \<lparr>req_method = GET, url = API_BASE_URL env @ ''/personalities'',
                       headers = [], body = No_body\<rparr> w of
        (Rejected e, w') \<Rightarrow> (Inl e, w')
      | (Resolved rsp, w') \<Rightarrow>
          if \<not> ok rsp
          then (Inl (Error (''Failed to get personality presets: '' @ statusText rsp)), w')
          else (json_presets env (body_text rsp), w'))"

text \<open>The list \<^verbatim>\<open>getAllSessions\<close> returns from its \<^verbatim>\<open>catch\<close> block.\<close>

definition mock_sessions :: "environment \<Rightarrow> ChatSession list" where
  "mock_sessions env =
     [\<lparr>session_id = ''1'',
       session_messages = [\<lparr>role = Assistant, content = ''Let's schedule...''\<rparr>],
       title = Some ''Project Planning'',
       createdAt = Some (toISOString env (Date_now env - 86400000)),
       lastMessageAt = Some (toISOString env (Date_now env - 3600000))\<rparr>,
      \<lparr>session_id = ''2'',
       session_messages = [\<lparr>role = Assistant, content = ''The error is...''\<rparr>],
       title = Some ''Tech Support'',
       createdAt = Some (toISOString env (Date_now env - 172800000)),
       lastMessageAt = Some (toISOString env (Date_now env - 7200000))\<rparr>,
      \<lparr>session_id = ''3'',
       session_messages = [\<lparr>role = Assistant, content = ''New ideas for...''\<rparr>],
       title = Some ''Brainstorming'',
       createdAt = Some (toISOString env (Date_now env - 259200000)),
       lastMessageAt = Some (toISOString env (Date_now env - 10800000))\<rparr>]"

text \<open>
  The \<^verbatim>\<open>throw\<close> for a response that is not ok stands inside the \<^verbatim>\<open>try\<close> whose \<^verbatim>\<open>catch\<close>
  returns the mock list, so every failure ends there.
\<close>

definition getAllSessions ::
  "environment \<Rightarrow> network \<Rightarrow> world \<Rightarrow> (js_error + ChatSession list) \<times> world" where
  "getAllSessions env net w =
     (case fetch net \<lparr>req_method = GET, url = API_BASE_URL env @ ''/sessions'',
                       headers = [], body = No_body\<rparr> w of
        (Rejected e, w') \<Rightarrow> (Inr (mock_sessions env), w')
      | (Resolved rsp, w') \<Rightarrow>
          if \<not> ok rsp then (Inr (mock_sessions env), w')
          else (case json_ChatSessions env (body_text rsp) of
                  Inl e \<Rightarrow> (Inr (mock_sessions env), w')
                | Inr result \<Rightarrow> (Inr result, w')))"

text \<open>
  \<^verbatim>\<open>deleteSession\<close> never reads the body of the response; its \<^verbatim>\<open>catch\<close> block returns
  a value instead of throwing again.
\<close>

definition delete_failed :: "js_error \<Rightarrow> DeleteResult" where
  "delete_failed e = \<lparr>success = False, message = ''Error deleting session: '' @ error_message e\<rparr>"

definition deleteSession ::
  "environment \<Rightarrow> network \<Rightarrow> string \<Rightarrow> world \<Rightarrow> (js_error + DeleteResult) \<times> world" where
  "deleteSession env net sid w =
     (case fetch net \<lparr>req_method = DELETE, url = API_BASE_URL env @ ''/sessions/'' @ sid,
                       headers = [], body = No_body\<rparr> w of
        (Rejected e, w') \<Rightarrow> (Inr (delete_failed e), w')
      | (Resolved rsp, w') \<Rightarrow>
          if \<not> ok rsp
          then (Inr (delete_failed (Error (''Failed to delete session: '' @ statusText rsp))), w')
          else (Inr \<lparr>success = True, message = ''Session deleted successfully''\<rparr>, w'))"

definition scrapeWebsite ::
  "environment \<Rightarrow> network \<Rightarrow> WebsiteScrapeRequest \<Rightarrow> world
     \<Rightarrow> (js_error + WebsiteScrapeResponse) \<times> world" where
  "scrapeWebsite env net rq w =
     (case fetch net \<lparr>req_method = POST, url = API_BASE_URL env @ ''/scrape-website'',
                       headers = json_headers, body = Scrape_body rq\<rparr> w of
        (Rejected e, w') \<Rightarrow> (Inl e, w')
      | (Resolved rsp, w') \<Rightarrow>
          if \<not> ok rsp then (Inl (Error (''Failed to scrape website: '' @ statusText rsp)), w')
          else (json_WebsiteScrapeResponse env (body_text rsp), w'))"

section \<open>The session context (contexts/AgentContext.tsx)\<close>

text \<open>
  Every operation of the provider takes the world and returns the world it leaves, with
  the error it throws, if any. The effect that loads the presets and the sessions when the
  provider mounts is not part of the model.
\<close>

definition defaultOrganizationSettings :: OrganizationSettings where
  "defaultOrganizationSettings =
     \<lparr>name = ''Agentica AI'',
      personality = \<lparr>type = ''Balanced'', custom = None\<rparr>,
      background = \<lparr>items = []\<rparr>,
      tools = \<lparr>background_search = True, memory_storage = True,
               memory_retrieval = True, web_search = True\<rparr>\<rparr>"

text \<open>The state setters of \<^verbatim>\<open>useState\<close>, in their functional form, and the browser calls.\<close>

definition setIsInitialized :: "bool \<Rightarrow> world \<Rightarrow> world" where
  "setIsInitialized b w = w\<lparr>agent := (agent w)\<lparr>isInitialized := b\<rparr>\<rparr>"

definition setIsLoading :: "bool \<Rightarrow> world \<Rightarrow> world" where
  "setIsLoading b w = w\<lparr>agent := (agent w)\<lparr>isLoading := b\<rparr>\<rparr>"

definition setSessionId :: "string option \<Rightarrow> world \<Rightarrow> world" where
  "setSessionId v w = w\<lparr>agent := (agent w)\<lparr>sessionId := v\<rparr>\<rparr>"

definition setMessages :: "(ChatMessage list \<Rightarrow> ChatMessage list) \<Rightarrow> world \<Rightarrow> world" where
  "setMessages f w = w\<lparr>agent := (agent w)\<lparr>messages := f (messages (agent w))\<rparr>\<rparr>"

definition setSessions :: "(ChatSession list \<Rightarrow> ChatSession list) \<Rightarrow> world \<Rightarrow> world" where
  "setSessions f w = w\<lparr>agent := (agent w)\<lparr>sessions := f (sessions (agent w))\<rparr>\<rparr>"

definition setCurrentSettings :: "(CurrentSettings \<Rightarrow> CurrentSettings) \<Rightarrow> world \<Rightarrow> world" where
  "setCurrentSettings f w =
     w\<lparr>agent := (agent w)\<lparr>currentSettings := f (currentSettings (agent w))\<rparr>\<rparr>"

definition localStorage_setItem :: "string \<Rightarrow> string \<Rightarrow> world \<Rightarrow> world" where
  "localStorage_setItem k v w = w\<lparr>localStorage := (localStorage w)(k \<mapsto> v)\<rparr>"

definition localStorage_removeItem :: "string \<Rightarrow> world \<Rightarrow> world" where
  "localStorage_removeItem k w = w\<lparr>localStorage := (localStorage w)(k := None)\<rparr>"

definition alert :: "string \<Rightarrow> world \<Rightarrow> world" where
  "alert m w = w\<lparr>alerts := alerts w @ [m]\<rparr>"

text \<open>
  The functions of the provider are created at each render and read \<^verbatim>\<open>sessionId\<close> and
  \<^verbatim>\<open>currentSettings\<close> as that render saw them: a call keeps these values until it ends,
  whatever the setters have done in between.
\<close>

record closure =
  cl_sessionId :: "string option"
  cl_currentSettings :: CurrentSettings

definition render :: "world \<Rightarrow> closure" where
  "render w = \<lparr>cl_sessionId = sessionId (agent w), cl_currentSettings = currentSettings (agent w)\<rparr>"

text \<open>\<^verbatim>\<open>!sessionId\<close> for a \<^verbatim>\<open>string | null\<close>.\<close>

fun no_session :: "string option \<Rightarrow> bool" where
  "no_session None = True"
| "no_session (Some s) = (\<not> truthy s)"

definition initializeSession ::
  "environment \<Rightarrow> network \<Rightarrow> OrganizationSettings \<Rightarrow> world \<Rightarrow> (js_error + unit) \<times> world" where
  "initializeSession env net settings w =
     (case createSession env net settings (setIsLoading True w) of
        (Inr rsp, w') \<Rightarrow>
          (Inr (),
           setIsLoading False
             (setIsInitialized True
               (setCurrentSettings (\<lambda>_. \<lparr>organization = settings\<rparr>)
                 (setMessages (\<lambda>_. [])
                   (setSessionId (Some (created_session_id rsp))
                     (localStorage_setItem ''lastSessionId'' (created_session_id rsp) w'))))))
      | (Inl e, w') \<Rightarrow>
          (Inr (),
           setIsLoading False
             (alert ''Failed to initialize chat session. Please try refreshing the page.'' w')))"

definition unable_message :: ChatMessage where
  "unable_message =
     \<lparr>role = Assistant,
      content = ''Unable to initialize chat session. Please refresh the page and try again.''\<rparr>"

definition expired_message :: ChatMessage where
  "expired_message =
     \<lparr>role = Assistant, content = ''Your session has expired. Creating a new session...''\<rparr>"

definition newSessionMessage :: ChatMessage where
  "newSessionMessage =
     \<lparr>role = Assistant, content = ''New session created. Please try your message again.''\<rparr>"

definition generic_error_message :: "js_error \<Rightarrow> ChatMessage" where
  "generic_error_message e =
     \<lparr>role = Assistant,
      content = ''Sorry, there was an error processing your message: '' @ error_message e\<rparr>"

text \<open>The \<^verbatim>\<open>try\<close> block of \<^verbatim>\<open>sendUserMessage\<close>: the request and the reading of its answer.\<close>

definition direct_chat ::
  "closure \<Rightarrow> environment \<Rightarrow> network \<Rightarrow> string \<Rightarrow> world \<Rightarrow> (js_error + unit) \<times> world" where
  "direct_chat cl env net msg w =
     (case fetch net \<lparr>req_method = POST, url = ''http://localhost:8000/chat'',
                       headers = json_headers, body = Message_body (cl_sessionId cl) msg\<rparr> w of
        (Rejected e, w') \<Rightarrow> (Inl e, w')
      | (Resolved rsp, w') \<Rightarrow>
          if \<not> ok rsp
          then (Inl (Error (''API error: '' @ string_of_nat (status rsp) @ '' '' @ statusText rsp)), w')
          else (case json_MessageResponse env (body_text rsp) of
                  Inl parseError \<Rightarrow>
                    (Inl (Error (''Failed to parse API response: '' @ body_text rsp)), w')
                | Inr data \<Rightarrow>
                    if truthy (response data)
                    then (Inr (), setMessages (\<lambda>prev. prev @ [\<lparr>role = Assistant, content = response data\<rparr>]) w')
                    else (Inl (Error ''Invalid response format from API''), w')))"

definition is404 :: "js_error \<Rightarrow> bool" where
  "is404 e = (includes_str (String_of_error e) ''404'' \<or> includes_str (String_of_error e) ''not found'')"

text \<open>\<^verbatim>\<open>sendUserMessage\<close> from the optimistic update on: what runs once a session id is seen.\<close>

definition send_with_session ::
  "closure \<Rightarrow> environment \<Rightarrow> network \<Rightarrow> string \<Rightarrow> world \<Rightarrow> (js_error + unit) \<times> world" where
  "send_with_session cl env net msg w =
     (case direct_chat cl env net msg
             (setMessages (\<lambda>prev. prev @ [\<lparr>role = User, content = msg\<rparr>]) (setIsLoading True w)) of
        (Inr u, w') \<Rightarrow> (Inr (), setIsLoading False w')
      | (Inl e, w') \<Rightarrow>
          if is404 e
          then (case initializeSession env net (organization (cl_currentSettings cl))
                       (setMessages (\<lambda>prev. prev @ [expired_message]) w') of
                  (r, w'') \<Rightarrow>
                    (Inr (), setIsLoading False (setMessages (\<lambda>prev. prev @ [newSessionMessage]) w'')))
          else (Inr (), setIsLoading False (setMessages (\<lambda>prev. prev @ [generic_error_message e]) w')))"

definition sendUserMessage ::
  "closure \<Rightarrow> environment \<Rightarrow> network \<Rightarrow> string \<Rightarrow> world \<Rightarrow> (js_error + unit) \<times> world" where
  "sendUserMessage cl env net msg w =
     (if no_session (cl_sessionId cl)
      then (case initializeSession env net (organization (cl_currentSettings cl)) w of
              (r, w') \<Rightarrow>
                if no_session (cl_sessionId cl)
                then (Inr (), setMessages (\<lambda>_. [unable_message]) w')
                else send_with_session cl env net msg w')
      else send_with_session cl env net msg w)"

definition updatePersonality :: "PersonalitySettings \<Rightarrow> world \<Rightarrow> world" where
  "updatePersonality p w =
     setCurrentSettings (\<lambda>prev. \<lparr>organization = (organization prev)\<lparr>personality := p\<rparr>\<rparr>) w"

definition updateBackground :: "BackgroundInfo \<Rightarrow> world \<Rightarrow> world" where
  "updateBackground b w =
     setCurrentSettings (\<lambda>prev. \<lparr>organization = (organization prev)\<lparr>background := b\<rparr>\<rparr>) w"

definition updateOrganizationName :: "string \<Rightarrow> world \<Rightarrow> world" where
  "updateOrganizationName n w =
     setCurrentSettings (\<lambda>prev. \<lparr>organization = (organization prev)\<lparr>name := n\<rparr>\<rparr>) w"

text \<open>
  \<^verbatim>\<open>loadSession\<close> in the pieces its two \<^verbatim>\<open>await\<close>s cut it into: what runs before
  \<^verbatim>\<open>getSession\<close> is called, and what runs when its answer is there.
\<close>

definition loadSession_before :: "world \<Rightarrow> world" where
  "loadSession_before w = setMessages (\<lambda>_. []) (setIsLoading True w)"

definition loadSession_loaded :: "string \<Rightarrow> ChatSession \<Rightarrow> world \<Rightarrow> world" where
  "loadSession_loaded sid session w =
     localStorage_setItem ''lastSessionId'' sid
       (setIsInitialized True
         (setMessages (\<lambda>_. session_messages session)
           (setSessionId (Some sid) w)))"

definition loadSession ::
  "environment \<Rightarrow> network \<Rightarrow> string \<Rightarrow> world \<Rightarrow> (js_error + unit) \<times> world" where
  "loadSession env net sid w =
     (case getSession env net sid (loadSession_before w) of
        (Inl e, w') \<Rightarrow> (Inl e, setIsLoading False w')
      | (Inr session, w') \<Rightarrow>
          (case getAllSessions env net (loadSession_loaded sid session w') of
             (Inl e, w'') \<Rightarrow> (Inl e, setIsLoading False w'')
           | (Inr updatedSessions, w'') \<Rightarrow>
               (Inr (), setIsLoading False (setSessions (\<lambda>_. updatedSessions) w''))))"

definition createNewSession ::
  "closure \<Rightarrow> environment \<Rightarrow> network \<Rightarrow> world \<Rightarrow> (js_error + unit) \<times> world" where
  "createNewSession cl env net w =
     (case initializeSession env net (organization (cl_currentSettings cl))
             (setMessages (\<lambda>_. []) w) of
        (r, w') \<Rightarrow>
          (case getAllSessions env net w' of
             (Inr updatedSessions, w'') \<Rightarrow> (Inr (), setSessions (\<lambda>_. updatedSessions) w'')
           | (Inl e, w'') \<Rightarrow> (Inr (), w'')))"

definition deleteSessionById ::
  "closure \<Rightarrow> environment \<Rightarrow> network \<Rightarrow> string \<Rightarrow> world \<Rightarrow> (js_error + unit) \<times> world" where
  "deleteSessionById cl env net idToDelete w =
     (case deleteSession env net idToDelete w of
        (Inl e, w') \<Rightarrow> (Inl e, w')
      | (Inr res, w') \<Rightarrow>
          (Inr (),
           (if Some idToDelete = cl_sessionId cl
            then localStorage_removeItem ''lastSessionId''
                   (setIsInitialized False (setMessages (\<lambda>_. []) (setSessionId None
                      (setSessions (filter (\<lambda>s. session_id s \<noteq> idToDelete)) w'))))
            else setSessions (filter (\<lambda>s. session_id s \<noteq> idToDelete)) w')))"

text \<open>The values of \<^verbatim>\<open>useState\<close> at the first render, with an empty browser storage.\<close>

definition initial_agent :: AgentState where
  "initial_agent =
     \<lparr>isInitialized = False, isLoading = False, sessionId = None, messages = [],
      sessions = [], personalityPresets = [],
      currentSettings = \<lparr>organization = defaultOrganizationSettings\<rparr>\<rparr>"

definition initial_world :: world where
  "initial_world =
     \<lparr>agent = initial_agent,
      page = \<lparr>input = [], page_messages = [], page_isLoading = False\<rparr>,
      localStorage = Map.empty, traffic = [], alerts = []\<rparr>"

section \<open>The chat page (app/page.tsx)\<close>

text \<open>\<^verbatim>\<open>a ?? b\<close> for a value that may be missing.\<close>

fun nullish :: "'a option \<Rightarrow> 'a \<Rightarrow> 'a" where
  "nullish None d = d"
| "nullish (Some v) d = v"

definition getPersonality :: "world \<Rightarrow> string" where
  "getPersonality w =
     (case localStorage w ''aiPersonality'' of
        Some s \<Rightarrow> if truthy s then s else ''Balanced''
      | None \<Rightarrow> ''Balanced'')"

definition getCustomPrompt :: "world \<Rightarrow> string" where
  "getCustomPrompt w =
     (case localStorage w ''customPrompt'' of
        Some s \<Rightarrow> if truthy s then s else []
      | None \<Rightarrow> [])"

definition getBackgroundTexts :: "environment \<Rightarrow> world \<Rightarrow> string list" where
  "getBackgroundTexts env w =
     (case localStorage w ''backgroundTexts'' of
        Some s \<Rightarrow>
          if truthy s
          then (case json_string_array env s of Some parsed \<Rightarrow> parsed | None \<Rightarrow> [])
          else []
      | None \<Rightarrow> [])"

definition default_tools :: ToolSettings where
  "default_tools =
     \<lparr>background_search = True, memory_storage = True, memory_retrieval = True,
      web_search = False\<rparr>"

definition getEnabledTools :: "environment \<Rightarrow> world \<Rightarrow> ToolSettings" where
  "getEnabledTools env w =
     (case localStorage w ''enabledTools'' of
        Some s \<Rightarrow>
          if truthy s
          then (case json_tools env s of
                  Some (backgroundSearch, memoryStorage, memoryRetrieval, webSearch) \<Rightarrow>
                    \<lparr>background_search = nullish backgroundSearch True,
                     memory_storage = nullish memoryStorage True,
                     memory_retrieval = nullish memoryRetrieval True,
                     web_search = nullish webSearch False\<rparr>
                | None \<Rightarrow> default_tools)
          else default_tools
      | None \<Rightarrow> default_tools)"

text \<open>The settings object that the page builds from the local storage.\<close>

definition page_settings :: "environment \<Rightarrow> world \<Rightarrow> OrganizationSettings" where
  "page_settings env w =
     \<lparr>name = ''Agentica AI'',
      personality =
        \<lparr>type = getPersonality w,
         custom = (if getPersonality w = ''Custom''
                   then Some [(''description'', getCustomPrompt w), (''tone'', ''custom''),
                              (''style'', ''custom'')]
                   else None)\<rparr>,
      background = \<lparr>items = getBackgroundTexts env w\<rparr>,
      tools = getEnabledTools env w\<rparr>"

definition setInput :: "string \<Rightarrow> world \<Rightarrow> world" where
  "setInput v w = w\<lparr>page := (page w)\<lparr>input := v\<rparr>\<rparr>"

definition page_setMessages :: "(ChatMessage list \<Rightarrow> ChatMessage list) \<Rightarrow> world \<Rightarrow> world" where
  "page_setMessages f w = w\<lparr>page := (page w)\<lparr>page_messages := f (page_messages (page w))\<rparr>\<rparr>"

definition page_setIsLoading :: "bool \<Rightarrow> world \<Rightarrow> world" where
  "page_setIsLoading b w = w\<lparr>page := (page w)\<lparr>page_isLoading := b\<rparr>\<rparr>"

text \<open>What \<^verbatim>\<open>handleSubmit\<close> reads from the render that created it.\<close>

record page_closure =
  cl_input :: string
  cl_isLoading :: bool
  cl_agentLoading :: bool

definition page_render :: "world \<Rightarrow> page_closure" where
  "page_render w =
     \<lparr>cl_input = input (page w), cl_isLoading = page_isLoading (page w),
      cl_agentLoading = isLoading (agent w)\<rparr>"

text \<open>The second half of the \<^verbatim>\<open>try\<close> block of \<^verbatim>\<open>handleSubmit\<close>: the chat request.\<close>

definition submit_chat ::
  "environment \<Rightarrow> network \<Rightarrow> string \<Rightarrow> string \<Rightarrow> world \<Rightarrow> (js_error + unit) \<times> world" where
  "submit_chat env net sid currentInput w =
     (case fetch net \<lparr>req_method = POST, url = template (NEXT_PUBLIC_API_URL env) @ ''/chat'',
                       headers = json_headers, body = Message_body (Some sid) currentInput\<rparr> w of
        (Rejected e, w') \<Rightarrow> (Inl e, w')
      | (Resolved rsp, w') \<Rightarrow>
          if \<not> ok rsp then (Inl (Error (''API error: '' @ string_of_nat (status rsp))), w')
          else (case json_MessageResponse env (body_text rsp) of
                  Inl e \<Rightarrow> (Inl e, w')
                | Inr chatData \<Rightarrow>
                    if truthy (response chatData)
                    then (Inr (),
                          page_setMessages
                            (\<lambda>prev. prev @ [\<lparr>role = Assistant, content = response chatData\<rparr>]) w')
                    else (Inl (Error ''Invalid response format''), w')))"

text \<open>The \<^verbatim>\<open>try\<close> block: a session is created when the local storage holds no session id.\<close>

definition submit_try ::
  "environment \<Rightarrow> network \<Rightarrow> string \<Rightarrow> world \<Rightarrow> (js_error + unit) \<times> world" where
  "submit_try env net currentInput w =
     (let stored = (case localStorage w ''lastSessionId'' of Some s \<Rightarrow> s | None \<Rightarrow> []) in
      if \<not> truthy stored
      then (case fetch net
                   \<lparr>req_method = POST, url = template (NEXT_PUBLIC_API_URL env) @ ''/sessions'',
                    headers = json_headers, body = Session_body (page_settings env w)\<rparr> w of
              (Rejected e, w') \<Rightarrow> (Inl e, w')
            | (Resolved rsp, w') \<Rightarrow>
                if \<not> ok rsp
                then (Inl (Error (''Session creation failed: '' @ string_of_nat (status rsp))), w')
                else (case json_SessionResponse env (body_text rsp) of
                        Inl e \<Rightarrow> (Inl e, w')
                      | Inr sessionData \<Rightarrow>
                          submit_chat env net (created_session_id sessionData) currentInput
                            (localStorage_setItem ''lastSessionId''
                               (created_session_id sessionData) w')))
      else submit_chat env net stored currentInput w)"

definition submit_error_message :: "js_error \<Rightarrow> ChatMessage" where
  "submit_error_message e =
     \<lparr>role = Assistant,
      content = ''Error: '' @ (if truthy (error_message e) then error_message e
                              else ''An unknown error occurred'')\<rparr>"

definition handleSubmit :: "page_closure \<Rightarrow> environment \<Rightarrow> network \<Rightarrow> world \<Rightarrow> world" where
  "handleSubmit cl env net w =
     (if \<not> truthy (trim (cl_input cl)) \<or> cl_isLoading cl \<or> cl_agentLoading cl then w
      else (case submit_try env net (cl_input cl)
                   (page_setIsLoading True
                     (page_setMessages (\<lambda>prev. prev @ [\<lparr>role = User, content = cl_input cl\<rparr>])
                       (setInput [] w))) of
              (Inr u, w') \<Rightarrow> page_setIsLoading False w'
            | (Inl e, w') \<Rightarrow>
                page_setIsLoading False
                  (page_setMessages (\<lambda>prev. prev @ [submit_error_message e]) w')))"

section \<open>The chat message renderer (components/ChatMessage.tsx)\<close>

text \<open>
  \<^verbatim>\<open>(.*?)($|\n)\<close> at the start of a string: the lazy group grows until \<^verbatim>\<open>$\<close> holds, that is
  up to the next line terminator or the end, and the last group is always empty. The
  result is the text of the lazy group and what follows the match.
\<close>

definition rest_of_line :: "string \<Rightarrow> string \<times> string" where
  "rest_of_line s =
     (takeWhile (\<lambda>c. \<not> is_line_terminator c) s, dropWhile (\<lambda>c. \<not> is_line_terminator c) s)"

text \<open>
  \<^verbatim>\<open>(\s*Title:\s*)(.*?)($|\n)\<close> at a position where \<^verbatim>\<open>^\<close> holds: group 2 and what follows
  the match. Both runs of white space are greedy and may cross line ends; giving
  characters back never helps, since the character after each run is not white space.
\<close>

definition match_title :: "string \<Rightarrow> (string \<times> string) option" where
  "match_title s =
     (if prefix ''Title:'' (dropWhile is_space s)
      then Some (rest_of_line (dropWhile is_space (drop 6 (dropWhile is_space s))))
      else None)"

text \<open>
  \<^verbatim>\<open>content.replace(/^(\s*Title:\s*)(.*?)($|\n)/m, '# $2\n')\<close>: the first match is
  replaced; the flag says whether \<^verbatim>\<open>^\<close> holds at the current position.
\<close>

fun replace_title :: "bool \<Rightarrow> string \<Rightarrow> string" where
  "replace_title bol [] = []"
| "replace_title bol (c # cs) =
     (case (if bol then match_title (c # cs) else None) of
        Some (t, rest) \<Rightarrow> ''# '' @ t @ ''\<newline>'' @ rest
      | None \<Rightarrow> c # replace_title (is_line_terminator c) cs)"

text \<open>
  \<^verbatim>\<open>\*\*(\d+)\.(\*\*|\s+)(.*?)($|\n)\<close> at the start of a string: group 1, group 3 and
  what follows the match.
\<close>

definition match_numbered :: "string \<Rightarrow> (string \<times> string \<times> string) option" where
  "match_numbered s =
     (if prefix ''**'' s \<and> takeWhile is_digit (drop 2 s) \<noteq> []
         \<and> prefix ''.'' (dropWhile is_digit (drop 2 s))
      then (let after = drop 1 (dropWhile is_digit (drop 2 s)) in
            if prefix ''**'' after
            then Some (takeWhile is_digit (drop 2 s), rest_of_line (drop 2 after))
            else if takeWhile is_space after \<noteq> []
            then Some (takeWhile is_digit (drop 2 s), rest_of_line (dropWhile is_space after))
            else None)
      else None)"

text \<open>
  \<^verbatim>\<open>processed.replace(/\*\*(\d+)\.(\*\*|\s+)(.*?)($|\n)/gm, '$1. $3\n')\<close>: every match,
  from left to right, the search going on where the last match ended.
\<close>

function replace_numbered :: "string \<Rightarrow> string" where
  "replace_numbered s =
     (case match_numbered s of
        Some (n, t, rest) \<Rightarrow> n @ ''. '' @ t @ ''\<newline>'' @ replace_numbered rest
      | None \<Rightarrow> (case s of [] \<Rightarrow> [] | c # cs \<Rightarrow> c # replace_numbered cs))"
  by pat_completeness auto
termination
proof -
  have shorter: "length rest < length s" if m: "match_numbered s = Some (n, t, rest)" for s n t rest
  proof -
    from m have p: "prefix ''**'' s" by (simp add: match_numbered_def split: if_splits)
    let ?after = "drop 1 (dropWhile is_digit (drop 2 s))"
    have a: "length ?after \<le> length s - 2"
      using length_dropWhile_le [of is_digit "drop 2 s"] by simp
    have s: "2 \<le> length s" using p by (auto simp add: prefix_def)
    have "rest = dropWhile (\<lambda>c. \<not> is_line_terminator c) (drop 2 ?after)
        \<or> rest = dropWhile (\<lambda>c. \<not> is_line_terminator c) (dropWhile is_space ?after)"
      using m by (auto simp add: match_numbered_def rest_of_line_def Let_def split: if_splits)
    then have "length rest \<le> length ?after"
      using length_dropWhile_le [of "\<lambda>c. \<not> is_line_terminator c" "drop 2 ?after"]
            length_dropWhile_le [of "\<lambda>c. \<not> is_line_terminator c" "dropWhile is_space ?after"]
            length_dropWhile_le [of is_space ?after]
      by auto
    then show ?thesis using a s by simp
  qed
  show ?thesis
    by (relation "measure length") (auto simp add: shorter)
qed

declare replace_numbered.simps [simp del]

text \<open>
  \<^verbatim>\<open>(\s*)(##\s+)(.*?)($|\n)\<close> at a position where \<^verbatim>\<open>^\<close> holds: group 1, group 3 and what
  follows the match.
\<close>

definition match_section :: "string \<Rightarrow> (string \<times> string \<times> string) option" where
  "match_section s =
     (if prefix ''##'' (dropWhile is_space s)
         \<and> takeWhile is_space (drop 2 (dropWhile is_space s)) \<noteq> []
      then Some (takeWhile is_space s,
                 rest_of_line (dropWhile is_space (drop 2 (dropWhile is_space s))))
      else None)"

text \<open>Whether \<^verbatim>\<open>^\<close> holds where a match that started in \<^verbatim>\<open>s\<close> and left \<^verbatim>\<open>rest\<close> ended.\<close>

definition line_start_after :: "string \<Rightarrow> string \<Rightarrow> bool" where
  "line_start_after s rest =
     (case rev (take (length s - length rest) s) of
        [] \<Rightarrow> False
      | c # cs \<Rightarrow> is_line_terminator c)"

text \<open>
  \<^verbatim>\<open>processed.replace(/^(\s*)(##\s+)(.*?)($|\n)/gm, '$1## $3\n')\<close>.
\<close>

function replace_sections :: "bool \<Rightarrow> string \<Rightarrow> string" where
  "replace_sections bol s =
     (case (if bol then match_section s else None) of
        Some (ind, t, rest) \<Rightarrow>
          ind @ ''## '' @ t @ ''\<newline>'' @ replace_sections (line_start_after s rest) rest
      | None \<Rightarrow> (case s of [] \<Rightarrow> [] | c # cs \<Rightarrow> c # replace_sections (is_line_terminator c) cs))"
  by pat_completeness auto
termination
proof -
  have shorter: "length rest < length s" if m: "match_section s = Some (ind, t, rest)" for s ind t rest
  proof -
    from m have p: "prefix ''##'' (dropWhile is_space s)"
      by (simp add: match_section_def split: if_splits)
    then have "2 \<le> length (dropWhile is_space s)" by (auto simp add: prefix_def)
    then have s: "2 \<le> length s" using length_dropWhile_le [of is_space s] by simp
    let ?b = "drop 2 (dropWhile is_space s)"
    have b: "length ?b \<le> length s - 2" using length_dropWhile_le [of is_space s] by simp
    have "rest = dropWhile (\<lambda>c. \<not> is_line_terminator c) (dropWhile is_space ?b)"
      using m by (auto simp add: match_section_def rest_of_line_def split: if_splits)
    then have "length rest \<le> length ?b"
      using length_dropWhile_le [of "\<lambda>c. \<not> is_line_terminator c" "dropWhile is_space ?b"]
            length_dropWhile_le [of is_space ?b]
      by simp
    then show ?thesis using b s by simp
  qed
  show ?thesis
    by (relation "measure (\<lambda>(bol, s). length s)") (auto simp add: shorter split: if_splits)
qed

declare replace_sections.simps [simp del]

text \<open>
  \<^verbatim>\<open>(\s*##\s*)(.*?)($|\n)\<close> at a position where \<^verbatim>\<open>^\<close> holds, and the replacement
  \<^verbatim>\<open>processed.replace(/^(\s*##\s*)(.*?)($|\n)/gm, '## $2\n')\<close> that the effect guards with
  a condition no content satisfies.
\<close>

definition match_marker :: "string \<Rightarrow> (string \<times> string) option" where
  "match_marker s =
     (if prefix ''##'' (dropWhile is_space s)
      then Some (rest_of_line (dropWhile is_space (drop 2 (dropWhile is_space s))))
      else None)"

function replace_markers :: "bool \<Rightarrow> string \<Rightarrow> string" where
  "replace_markers bol s =
     (case (if bol then match_marker s else None) of
        Some (t, rest) \<Rightarrow>
          ''## '' @ t @ ''\<newline>'' @ replace_markers (line_start_after s rest) rest
      | None \<Rightarrow> (case s of [] \<Rightarrow> [] | c # cs \<Rightarrow> c # replace_markers (is_line_terminator c) cs))"
  by pat_completeness auto
termination
proof -
  have shorter: "length rest < length s" if m: "match_marker s = Some (t, rest)" for s t rest
  proof -
    from m have p: "prefix ''##'' (dropWhile is_space s)"
      by (simp add: match_marker_def split: if_splits)
    then have "2 \<le> length (dropWhile is_space s)" by (auto simp add: prefix_def)
    then have s: "2 \<le> length s" using length_dropWhile_le [of is_space s] by simp
    let ?b = "drop 2 (dropWhile is_space s)"
    have b: "length ?b \<le> length s - 2" using length_dropWhile_le [of is_space s] by simp
    have "rest = dropWhile (\<lambda>c. \<not> is_line_terminator c) (dropWhile is_space ?b)"
      using m by (auto simp add: match_marker_def rest_of_line_def split: if_splits)
    then have "length rest \<le> length ?b"
      using length_dropWhile_le [of "\<lambda>c. \<not> is_line_terminator c" "dropWhile is_space ?b"]
            length_dropWhile_le [of is_space ?b]
      by simp
    then show ?thesis using b s by simp
  qed
  show ?thesis
    by (relation "measure (\<lambda>(bol, s). length s)") (auto simp add: shorter split: if_splits)
qed

declare replace_markers.simps [simp del]

text \<open>
  The effect of \<^verbatim>\<open>ChatMessage\<close> that computes \<^verbatim>\<open>formattedContent\<close>, the text the component
  shows (as it is for a user message, through the markdown renderer for an assistant
  message).
\<close>

definition formattedContent :: "role \<Rightarrow> string \<Rightarrow> string" where
  "formattedContent r raw =
     (let processed =
            (if r = Assistant \<and> \<not> prefix ''#'' raw \<and> includes_str raw ''Title:''
             then replace_title True raw else raw);
          processed =
            (if r = Assistant \<and> \<not> includes_str raw ''##'' \<and> includes_str raw ''##''
             then replace_markers True processed else processed);
          processed =
            (if r = Assistant then replace_sections True (replace_numbered processed)
             else processed)
      in processed)"

section \<open>Concrete surroundings for evaluation\<close>

text \<open>
  A backend whose bodies are read without JSON syntax: the body of a session response is
  the new session id, the body of a chat response is the reply, the body of a session
  list is a comma-free list of ids, one per character.
\<close>

definition demo_env :: environment where
  "demo_env =
     \<lparr>NEXT_PUBLIC_API_URL = Some ''https://api.example.com'',
      Date_now = 1700000000000,
      toISOString = (\<lambda>t. ''t''),
      json_SessionResponse =
        (\<lambda>t. if t = [] then Inl (SyntaxError ''Unexpected end of JSON input'')
             else Inr \<lparr>created_session_id = t, created_message = ''ok''\<rparr>),
      json_MessageResponse =
        (\<lambda>t. if t = [] then Inl (SyntaxError ''Unexpected end of JSON input'')
             else Inr \<lparr>reply_session_id = ''abc'', response = t\<rparr>),
      json_ChatSession =
        (\<lambda>t. if t = [] then Inl (SyntaxError ''Unexpected end of JSON input'')
             else Inr \<lparr>session_id = t,
                       session_messages = [\<lparr>role = Assistant, content = ''Welcome back''\<rparr>],
                       title = None, createdAt = None, lastMessageAt = None\<rparr>),
      json_ChatSessions =
        (\<lambda>t. if t = [] then Inl (SyntaxError ''Unexpected end of JSON input'')
             else Inr (map (\<lambda>c. \<lparr>session_id = [c], session_messages = [], title = None,
                                  createdAt = None, lastMessageAt = None\<rparr>) t)),
      json_presets = (\<lambda>t. Inr []),
      json_WebsiteScrapeResponse =
        (\<lambda>t. Inr \<lparr>scrape_status = Scrape_success, scrape_message = ''ok'',
                    background_items = [t]\<rparr>),
      json_string_array = (\<lambda>t. None),
      json_tools = (\<lambda>t. None)\<rparr>"

definition answer_all :: "fetch_result \<Rightarrow> network" where
  "answer_all r = (\<lambda>history req. r)"

definition server_error :: Response where
  "server_error = \<lparr>status = 500, statusText = ''Internal Server Error'', body_text = []\<rparr>"

text \<open>A context in which the session \<^verbatim>\<open>abc\<close> is active and has one message on screen.\<close>

definition hello_message :: ChatMessage where
  "hello_message = \<lparr>role = User, content = ''Hello''\<rparr>"

definition summary :: "string \<Rightarrow> ChatSession" where
  "summary sid =
     \<lparr>session_id = sid, session_messages = [], title = None, createdAt = None,
      lastMessageAt = None\<rparr>"

definition active_world :: world where
  "active_world =
     \<lparr>agent = \<lparr>isInitialized = True, isLoading = False, sessionId = Some ''abc'',
               messages = [hello_message], sessions = [summary ''abc'', summary ''xyz''],
               personalityPresets = [],
               currentSettings = \<lparr>organization = defaultOrganizationSettings\<rparr>\<rparr>,
      page = \<lparr>input = [], page_messages = [], page_isLoading = False\<rparr>,
      localStorage = [''lastSessionId'' \<mapsto> ''abc''], traffic = [], alerts = []\<rparr>"

definition ok_response :: "string \<Rightarrow> Response" where
  "ok_response t = \<lparr>status = 200, statusText = ''OK'', body_text = t\<rparr>"

definition not_found :: Response where
  "not_found = \<lparr>status = 404, statusText = ''Not Found'', body_text = []\<rparr>"

text \<open>
  A backend that has lost every chat session: it answers 404 to a chat request, and
  creates the session \<^verbatim>\<open>fresh\<close> when asked for a new one.
\<close>

definition forgetful_backend :: network where
  "forgetful_backend history req =
     (case body req of
        Session_body s \<Rightarrow> Resolved (ok_response ''fresh'')
      | _ \<Rightarrow> Resolved not_found)"

section \<open>Basic facts about the model\<close>

lemmas setters =
  setIsInitialized_def setIsLoading_def setSessionId_def setMessages_def setSessions_def
  setCurrentSettings_def localStorage_setItem_def localStorage_removeItem_def alert_def

lemma fetch_fst: "fst (fetch net req w) = net (map sent (traffic w)) req"
  by (simp add: fetch_def)

lemma fetch_snd:
  "snd (fetch net req w) = w\<lparr>traffic := traffic w @ [\<lparr>sent = req, on_screen = agent w\<rparr>]\<rparr>"
  by (simp add: fetch_def)

text \<open>What \<^const>\<open>createSession\<close> returns depends on the requests issued so far only.\<close>

lemma createSession_fst:
  "traffic w1 = traffic w2 \<Longrightarrow>
     fst (createSession env net s w1) = fst (createSession env net s w2)"
  by (simp add: createSession_def fetch_def split: fetch_result.splits)

lemma createSession_snd:
  "snd (createSession env net s w) =
     w\<lparr>traffic := traffic w @
          [\<lparr>sent = \<lparr>req_method = POST, url = API_BASE_URL env @ ''/sessions'',
                     headers = json_headers, body = Session_body s\<rparr>,
            on_screen = agent w\<rparr>]\<rparr>"
  by (simp add: createSession_def fetch_def split: fetch_result.splits)

section \<open>The API client and failed requests\<close>

text \<open>
  C4 (corrected). When the response status is not successful, \<^verbatim>\<open>createSession\<close>,
  \<^verbatim>\<open>sendMessage\<close>, \<^verbatim>\<open>getSession\<close>, \<^verbatim>\<open>getPersonalityPresets\<close> and \<^verbatim>\<open>scrapeWebsite\<close> raise
  an error whose message carries the status text. The two other operations do not raise:
  \<^verbatim>\<open>deleteSession\<close> returns a result with \<^verbatim>\<open>success: false\<close>, and \<^verbatim>\<open>getAllSessions\<close>
  returns the mock list.
\<close>

theorem api_client_on_failed_status:
  assumes "\<not> ok r" and "\<And>q. net (map sent (traffic w)) q = Resolved r"
  shows "fst (createSession env net settings w)
           = Inl (Error (''Failed to create session: '' @ statusText r))
       \<and> fst (sendMessage env net sid msg w)
           = Inl (Error (''Failed to send message: '' @ statusText r))
       \<and> fst (getSession env net sid w)
           = Inl (Error (''Failed to get session: '' @ statusText r))
       \<and> fst (getPersonalityPresets env net w)
           = Inl (Error (''Failed to get personality presets: '' @ statusText r))
       \<and> fst (scrapeWebsite env net rq w)
           = Inl (Error (''Failed to scrape website: '' @ statusText r))
       \<and> fst (deleteSession env net sid w)
           = Inr \<lparr>success = False,
                  message = ''Error deleting session: Failed to delete session: '' @ statusText r\<rparr>
       \<and> fst (getAllSessions env net w) = Inr (mock_sessions env)"
  using assms
  by (simp add: createSession_def sendMessage_def getSession_def getPersonalityPresets_def
      scrapeWebsite_def deleteSession_def getAllSessions_def fetch_def delete_failed_def)

theorem api_client_on_failed_status_witness:
  "\<not> ok server_error \<and>
   fst (createSession demo_env (answer_all (Resolved server_error))
          defaultOrganizationSettings initial_world)
     = Inl (Error ''Failed to create session: Internal Server Error'') \<and>
   fst (getAllSessions demo_env (answer_all (Resolved server_error)) initial_world)
     = Inr (mock_sessions demo_env)"
proof -
  have h: "\<not> ok server_error" by (simp add: ok_def server_error_def)
  have n: "\<And>q. answer_all (Resolved server_error) (map sent (traffic initial_world)) q
             = Resolved server_error"
    by (simp add: answer_all_def)
  from api_client_on_failed_status
         [where r = server_error and net = "answer_all (Resolved server_error)"
            and w = initial_world and env = demo_env and settings = defaultOrganizationSettings,
          OF h n]
  show ?thesis using h by (simp add: server_error_def)
qed

text \<open>
  The claim as stated fails for \<^verbatim>\<open>deleteSession\<close>: answered with status 500, it returns
  a value to its caller.
\<close>

theorem deleteSession_returns_on_failed_status:
  "\<not> ok server_error \<and>
   fst (deleteSession demo_env (answer_all (Resolved server_error)) ''abc'' initial_world)
     = Inr \<lparr>success = False,
            message = ''Error deleting session: Failed to delete session: Internal Server Error''\<rparr>"
  by (simp add: deleteSession_def fetch_def answer_all_def server_error_def ok_def delete_failed_def)

text \<open>
  C7 (corrected). \<^verbatim>\<open>getAllSessions\<close> returns the parsed list when the request succeeds and
  its body parses, and the mock list in every other case: a rejected request, a status
  that is not successful, a body that does not parse. It never raises.
\<close>

theorem getAllSessions_falls_back:
  fixes env :: environment and net :: network and w :: world
  shows "(net (map sent (traffic w))
            \<lparr>req_method = GET, url = API_BASE_URL env @ ''/sessions'', headers = [], body = No_body\<rparr>
            = Resolved r
          \<and> ok r \<and> json_ChatSessions env (body_text r) = Inr l
          \<longrightarrow> fst (getAllSessions env net w) = Inr l)
       \<and> (net (map sent (traffic w))
            \<lparr>req_method = GET, url = API_BASE_URL env @ ''/sessions'', headers = [], body = No_body\<rparr>
            = Rejected e
          \<longrightarrow> fst (getAllSessions env net w) = Inr (mock_sessions env))
       \<and> (net (map sent (traffic w))
            \<lparr>req_method = GET, url = API_BASE_URL env @ ''/sessions'', headers = [], body = No_body\<rparr>
            = Resolved r
          \<and> \<not> ok r
          \<longrightarrow> fst (getAllSessions env net w) = Inr (mock_sessions env))
       \<and> (net (map sent (traffic w))
            \<lparr>req_method = GET, url = API_BASE_URL env @ ''/sessions'', headers = [], body = No_body\<rparr>
            = Resolved r
          \<and> ok r \<and> json_ChatSessions env (body_text r) = Inl e'
          \<longrightarrow> fst (getAllSessions env net w) = Inr (mock_sessions env))"
  by (simp add: getAllSessions_def fetch_def)

theorem getAllSessions_falls_back_witness:
  "fst (getAllSessions demo_env (answer_all (Resolved (ok_response ''ab''))) initial_world)
     = Inr [summary ''a'', summary ''b'']
   \<and> fst (getAllSessions demo_env (answer_all (Rejected (TypeError ''Failed to fetch'')))
            initial_world)
     = Inr (mock_sessions demo_env)
   \<and> fst (getAllSessions demo_env (answer_all (Resolved server_error)) initial_world)
     = Inr (mock_sessions demo_env)
   \<and> fst (getAllSessions demo_env (answer_all (Resolved (ok_response []))) initial_world)
     = Inr (mock_sessions demo_env)"
proof -
  have a: "ok (ok_response t)" for t by (simp add: ok_def ok_response_def)
  have b: "\<not> ok server_error" by (simp add: ok_def server_error_def)
  have c: "json_ChatSessions demo_env (body_text (ok_response ''ab''))
             = Inr [summary ''a'', summary ''b'']"
    by (simp add: demo_env_def ok_response_def summary_def)
  have d: "json_ChatSessions demo_env (body_text (ok_response []))
             = Inl (SyntaxError ''Unexpected end of JSON input'')"
    by (simp add: demo_env_def ok_response_def)
  note t = getAllSessions_falls_back [where w = initial_world and env = demo_env]
  from t [where net = "answer_all (Resolved (ok_response ''ab''))" and r = "ok_response ''ab''"]
       t [where net = "answer_all (Rejected (TypeError ''Failed to fetch''))"
            and e = "TypeError ''Failed to fetch''"]
       t [where net = "answer_all (Resolved server_error)" and r = server_error]
       t [where net = "answer_all (Resolved (ok_response []))" and r = "ok_response []"]
       a b c d
  show ?thesis by (simp add: answer_all_def)
qed

text \<open>
  The claim as stated fails: answered with status 500, \<^verbatim>\<open>getAllSessions\<close> returns the mock
  list instead of raising.
\<close>

theorem getAllSessions_mock_on_failed_status:
  "\<not> ok server_error \<and>
   fst (getAllSessions demo_env (answer_all (Resolved server_error)) initial_world)
     = Inr (mock_sessions demo_env)"
  by (simp add: getAllSessions_def fetch_def answer_all_def server_error_def ok_def)

section \<open>The settings mutators\<close>

text \<open>
  C8 (confirmed). \<^verbatim>\<open>updatePersonality\<close>, \<^verbatim>\<open>updateBackground\<close> and
  \<^verbatim>\<open>updateOrganizationName\<close> each set their own field of the organization settings and leave
  the other settings fields, the active session id, the message list, the session
  summaries and the local storage as they were; no request is issued.
\<close>

theorem settings_mutators_frame:
  "(let w' = updatePersonality p w; new = organization (currentSettings (agent w'));
        old = organization (currentSettings (agent w)) in
      personality new = p \<and> name new = name old \<and> background new = background old
      \<and> tools new = tools old
      \<and> sessionId (agent w') = sessionId (agent w) \<and> messages (agent w') = messages (agent w)
      \<and> sessions (agent w') = sessions (agent w)
      \<and> localStorage w' = localStorage w \<and> traffic w' = traffic w)
 \<and> (let w' = updateBackground b w; new = organization (currentSettings (agent w'));
        old = organization (currentSettings (agent w)) in
      background new = b \<and> name new = name old \<and> personality new = personality old
      \<and> tools new = tools old
      \<and> sessionId (agent w') = sessionId (agent w) \<and> messages (agent w') = messages (agent w)
      \<and> sessions (agent w') = sessions (agent w)
      \<and> localStorage w' = localStorage w \<and> traffic w' = traffic w)
 \<and> (let w' = updateOrganizationName n w; new = organization (currentSettings (agent w'));
        old = organization (currentSettings (agent w)) in
      name new = n \<and> personality new = personality old \<and> background new = background old
      \<and> tools new = tools old
      \<and> sessionId (agent w') = sessionId (agent w) \<and> messages (agent w') = messages (agent w)
      \<and> sessions (agent w') = sessions (agent w)
      \<and> localStorage w' = localStorage w \<and> traffic w' = traffic w)"
  by (simp add: updatePersonality_def updateBackground_def updateOrganizationName_def
      setCurrentSettings_def Let_def)

section \<open>Session initialization\<close>

text \<open>
  C10 (confirmed). When \<^verbatim>\<open>createSession\<close> fails, \<^verbatim>\<open>initializeSession\<close> resolves without
  throwing, and the context state is the one before the call with the loading flag off:
  the active session id, the message list, the settings and the initialized flag keep
  their values, and so does the local storage. While the request is pending the state on
  screen is the one before the call with the loading flag on.
\<close>

theorem initializeSession_failure_keeps_state:
  assumes "fst (createSession env net settings w) = Inl e"
  shows "fst (initializeSession env net settings w) = Inr ()
       \<and> agent (snd (initializeSession env net settings w)) = (agent w)\<lparr>isLoading := False\<rparr>
       \<and> localStorage (snd (initializeSession env net settings w)) = localStorage w
       \<and> map on_screen (drop (length (traffic w))
                          (traffic (snd (initializeSession env net settings w))))
           = [(agent w)\<lparr>isLoading := True\<rparr>]"
proof -
  have "fst (createSession env net settings (setIsLoading True w)) = Inl e"
    using assms createSession_fst [of "setIsLoading True w" w] by (simp add: setIsLoading_def)
  then obtain w' where c: "createSession env net settings (setIsLoading True w) = (Inl e, w')"
    by (cases "createSession env net settings (setIsLoading True w)") auto
  have w': "w' = snd (createSession env net settings (setIsLoading True w))" using c by simp
  show ?thesis
    unfolding initializeSession_def c
    by (simp add: w' createSession_snd setters)
qed

theorem initializeSession_failure_keeps_state_witness:
  "fst (createSession demo_env (answer_all (Resolved server_error))
          defaultOrganizationSettings active_world)
     = Inl (Error ''Failed to create session: Internal Server Error'')
   \<and> fst (initializeSession demo_env (answer_all (Resolved server_error))
            defaultOrganizationSettings active_world) = Inr ()
   \<and> agent (snd (initializeSession demo_env (answer_all (Resolved server_error))
                   defaultOrganizationSettings active_world))
       = agent active_world
   \<and> localStorage (snd (initializeSession demo_env (answer_all (Resolved server_error))
                          defaultOrganizationSettings active_world)) ''lastSessionId''
       = Some ''abc''"
proof -
  have c: "fst (createSession demo_env (answer_all (Resolved server_error))
                  defaultOrganizationSettings active_world)
             = Inl (Error ''Failed to create session: Internal Server Error'')"
    by (simp add: createSession_def fetch_def answer_all_def server_error_def ok_def)
  from initializeSession_failure_keeps_state [OF c] c
  show ?thesis by (simp add: active_world_def)
qed

section \<open>Facts shared by the proofs about the session context\<close>

lemma prefix_includes: "prefix needle hay \<Longrightarrow> includes_str hay needle"
  by (cases hay) auto

lemma includes_str_append: "includes_str (pre @ needle @ post) needle"
proof (induction pre)
  case Nil
  then show ?case by (simp add: prefix_includes)
next
  case (Cons c pre)
  then show ?case by simp
qed

lemma string_of_nat_404: "string_of_nat 404 = ''404''"
  by code_simp

text \<open>The error thrown for a response of status 404 is taken for a lost session.\<close>

lemma is404_status: "is404 (Error (''API error: '' @ string_of_nat 404 @ '' '' @ st))"
proof -
  have "includes_str (''Error: API error: '' @ ''404'' @ ('' '' @ st)) ''404''"
    by (rule includes_str_append)
  then show ?thesis by (simp add: is404_def string_of_nat_404)
qed

lemma createSession_ok:
  assumes "net (map sent (traffic w))
            \<lparr>req_method = POST, url = API_BASE_URL env @ ''/sessions'',
             headers = json_headers, body = Session_body s\<rparr> = Resolved r"
      and "ok r"
  shows "fst (createSession env net s w) = json_SessionResponse env (body_text r)"
  using assms by (simp add: createSession_def fetch_def)

lemma initializeSession_success:
  assumes "fst (createSession env net settings w) = Inr rsp"
  shows "initializeSession env net settings w =
     (Inr (),
      w\<lparr>agent := (agent w)\<lparr>isLoading := False, isInitialized := True,
                            currentSettings := \<lparr>organization = settings\<rparr>, messages := [],
                            sessionId := Some (created_session_id rsp)\<rparr>,
        localStorage := (localStorage w)(''lastSessionId'' \<mapsto> created_session_id rsp),
        traffic := traffic w @
          [\<lparr>sent = \<lparr>req_method = POST, url = API_BASE_URL env @ ''/sessions'',
                     headers = json_headers, body = Session_body settings\<rparr>,
            on_screen = (agent w)\<lparr>isLoading := True\<rparr>\<rparr>]\<rparr>)"
proof -
  have "fst (createSession env net settings (setIsLoading True w)) = Inr rsp"
    using assms createSession_fst [of "setIsLoading True w" w] by (simp add: setIsLoading_def)
  then obtain w' where c: "createSession env net settings (setIsLoading True w) = (Inr rsp, w')"
    by (cases "createSession env net settings (setIsLoading True w)") auto
  have w': "w' = snd (createSession env net settings (setIsLoading True w))" using c by simp
  show ?thesis
    unfolding initializeSession_def c
    by (simp add: w' createSession_snd setters)
qed

text \<open>Whatever its outcome, \<^const>\<open>initializeSession\<close> issues one request: the session creation.\<close>

lemma initializeSession_traffic:
  "traffic (snd (initializeSession env net settings w)) =
     traffic w @ [\<lparr>sent = \<lparr>req_method = POST, url = API_BASE_URL env @ ''/sessions'',
                     headers = json_headers, body = Session_body settings\<rparr>,
            on_screen = (agent w)\<lparr>isLoading := True\<rparr>\<rparr>]"
proof -
  obtain r w' where c: "createSession env net settings (setIsLoading True w) = (r, w')"
    by (cases "createSession env net settings (setIsLoading True w)") auto
  have w': "w' = snd (createSession env net settings (setIsLoading True w))" using c by simp
  show ?thesis
    unfolding initializeSession_def c
    by (cases r) (simp_all add: w' createSession_snd setters)
qed

lemma deleteSession_snd:
  "snd (deleteSession env net sid w) =
     w\<lparr>traffic := traffic w @
          [\<lparr>sent = \<lparr>req_method = DELETE, url = API_BASE_URL env @ ''/sessions/'' @ sid,
                     headers = [], body = No_body\<rparr>,
            on_screen = agent w\<rparr>]\<rparr>"
  by (simp add: deleteSession_def fetch_def split: fetch_result.splits)

lemma deleteSession_never_raises: "\<exists>res. fst (deleteSession env net sid w) = Inr res"
  by (simp add: deleteSession_def fetch_def split: fetch_result.splits)

lemma getSession_fst:
  "traffic w1 = traffic w2 \<Longrightarrow>
     fst (getSession env net sid w1) = fst (getSession env net sid w2)"
  by (simp add: getSession_def fetch_def split: fetch_result.splits)

lemma getSession_snd:
  "snd (getSession env net sid w) =
     w\<lparr>traffic := traffic w @
          [\<lparr>sent = \<lparr>req_method = GET, url = API_BASE_URL env @ ''/sessions/'' @ sid,
                     headers = [], body = No_body\<rparr>,
            on_screen = agent w\<rparr>]\<rparr>"
  by (simp add: getSession_def fetch_def split: fetch_result.splits)

lemma getAllSessions_never_raises: "\<exists>l. fst (getAllSessions env net w) = Inr l"
  by (simp add: getAllSessions_def fetch_def split: fetch_result.splits sum.splits)

lemma getAllSessions_snd:
  "snd (getAllSessions env net w) =
     w\<lparr>traffic := traffic w @
          [\<lparr>sent = \<lparr>req_method = GET, url = API_BASE_URL env @ ''/sessions'',
                     headers = [], body = No_body\<rparr>,
            on_screen = agent w\<rparr>]\<rparr>"
  by (simp add: getAllSessions_def fetch_def split: fetch_result.splits sum.splits)

text \<open>Facts about the concrete surroundings.\<close>

lemma active_world_simps:
  "sessionId (agent active_world) = Some ''abc''"
  "messages (agent active_world) = [hello_message]"
  "traffic active_world = []"
  "organization (currentSettings (agent active_world)) = defaultOrganizationSettings"
  "localStorage active_world ''lastSessionId'' = Some ''abc''"
  by (simp_all add: active_world_def)

lemma initial_world_simps:
  "sessionId (agent initial_world) = None"
  "messages (agent initial_world) = []"
  "traffic initial_world = []"
  "organization (currentSettings (agent initial_world)) = defaultOrganizationSettings"
  by (simp_all add: initial_world_def initial_agent_def)

lemma demo_base_url: "API_BASE_URL demo_env = ''https://api.example.com''"
  by (simp add: API_BASE_URL_def demo_env_def truthy_def)

lemma active_has_session: "\<not> no_session (sessionId (agent active_world))"
  by (simp add: active_world_simps truthy_def)

section \<open>Deleting a session\<close>

text \<open>
  C6 (confirmed). \<^verbatim>\<open>deleteSession(id)\<close> on the context, called from the current render:
  when \<^verbatim>\<open>id\<close> is the active session id, afterwards the active id is null, the message list
  is empty, the key \<^verbatim>\<open>lastSessionId\<close> is removed from the local storage and \<^verbatim>\<open>id\<close> is not
  among the session summaries; when \<^verbatim>\<open>id\<close> is not the active session id, the active id and
  the message list are as they were.
\<close>

theorem deleteSessionById_active_and_other:
  "fst (deleteSessionById (render w) env net sid w) = Inr ()
   \<and> (sessionId (agent w) = Some sid \<longrightarrow>
        sessionId (agent (snd (deleteSessionById (render w) env net sid w))) = None
      \<and> messages (agent (snd (deleteSessionById (render w) env net sid w))) = []
      \<and> localStorage (snd (deleteSessionById (render w) env net sid w)) ''lastSessionId'' = None
      \<and> sid \<notin> session_id `
                set (sessions (agent (snd (deleteSessionById (render w) env net sid w)))))
   \<and> (sessionId (agent w) \<noteq> Some sid \<longrightarrow>
        sessionId (agent (snd (deleteSessionById (render w) env net sid w)))
          = sessionId (agent w)
      \<and> messages (agent (snd (deleteSessionById (render w) env net sid w)))
          = messages (agent w))"
proof -
  obtain res where r: "fst (deleteSession env net sid w) = Inr res"
    using deleteSession_never_raises by blast
  define w' where "w' = snd (deleteSession env net sid w)"
  have d: "deleteSession env net sid w = (Inr res, w')"
    using r by (cases "deleteSession env net sid w") (simp add: w'_def)
  have w': "w' = w\<lparr>traffic := traffic w @
          [\<lparr>sent = \<lparr>req_method = DELETE, url = API_BASE_URL env @ ''/sessions/'' @ sid,
                     headers = [], body = No_body\<rparr>,
            on_screen = agent w\<rparr>]\<rparr>"
    by (simp add: w'_def deleteSession_snd)
  show ?thesis
    unfolding deleteSessionById_def d
    by (auto simp add: w' setters render_def)
qed

theorem deleteSessionById_active_and_other_witness:
  "sessionId (agent active_world) = Some ''abc''
   \<and> sessionId (agent (snd (deleteSessionById (render active_world) demo_env
        (answer_all (Resolved (ok_response []))) ''abc'' active_world))) = None
   \<and> messages (agent (snd (deleteSessionById (render active_world) demo_env
        (answer_all (Resolved (ok_response []))) ''abc'' active_world))) = []
   \<and> sessionId (agent active_world) \<noteq> Some ''xyz''
   \<and> sessionId (agent (snd (deleteSessionById (render active_world) demo_env
        (answer_all (Resolved (ok_response []))) ''xyz'' active_world))) = Some ''abc''
   \<and> messages (agent (snd (deleteSessionById (render active_world) demo_env
        (answer_all (Resolved (ok_response []))) ''xyz'' active_world))) = [hello_message]"
proof -
  from deleteSessionById_active_and_other
         [of active_world demo_env "answer_all (Resolved (ok_response []))" "''abc''"]
       deleteSessionById_active_and_other
         [of active_world demo_env "answer_all (Resolved (ok_response []))" "''xyz''"]
  show ?thesis by (simp add: active_world_simps)
qed

section \<open>Loading a session\<close>

lemma loadSession_failure:
  assumes "fst (getSession env net sid w) = Inl e"
  shows "loadSession env net sid w =
     (Inl e, w\<lparr>agent := (agent w)\<lparr>isLoading := False, messages := []\<rparr>,
              traffic := traffic w @
                [\<lparr>sent = \<lparr>req_method = GET, url = API_BASE_URL env @ ''/sessions/'' @ sid,
                           headers = [], body = No_body\<rparr>,
                  on_screen = (agent w)\<lparr>isLoading := True, messages := []\<rparr>\<rparr>]\<rparr>)"
proof -
  have "fst (getSession env net sid (loadSession_before w)) = Inl e"
    using assms getSession_fst [of "loadSession_before w" w]
    by (simp add: loadSession_before_def setters)
  then obtain w' where c: "getSession env net sid (loadSession_before w) = (Inl e, w')"
    by (cases "getSession env net sid (loadSession_before w)") auto
  have w': "w' = snd (getSession env net sid (loadSession_before w))" using c by simp
  show ?thesis
    unfolding loadSession_def c
    by (simp add: w' getSession_snd loadSession_before_def setters)
qed

lemma loadSession_success:
  assumes "fst (getSession env net sid w) = Inr session"
  shows "fst (loadSession env net sid w) = Inr ()
       \<and> sessionId (agent (snd (loadSession env net sid w))) = Some sid
       \<and> messages (agent (snd (loadSession env net sid w))) = session_messages session
       \<and> localStorage (snd (loadSession env net sid w)) ''lastSessionId'' = Some sid
       \<and> map on_screen (drop (length (traffic w)) (traffic (snd (loadSession env net sid w))))
          = [(agent w)\<lparr>isLoading := True, messages := []\<rparr>,
             (agent w)\<lparr>isLoading := True, isInitialized := True,
                       messages := session_messages session, sessionId := Some sid\<rparr>]"
proof -
  have "fst (getSession env net sid (loadSession_before w)) = Inr session"
    using assms getSession_fst [of "loadSession_before w" w]
    by (simp add: loadSession_before_def setters)
  then obtain w' where c: "getSession env net sid (loadSession_before w) = (Inr session, w')"
    by (cases "getSession env net sid (loadSession_before w)") auto
  have w': "w' = snd (getSession env net sid (loadSession_before w))" using c by simp
  obtain l where "fst (getAllSessions env net (loadSession_loaded sid session w')) = Inr l"
    using getAllSessions_never_raises by blast
  then obtain w'' where
    g: "getAllSessions env net (loadSession_loaded sid session w') = (Inr l, w'')"
    by (cases "getAllSessions env net (loadSession_loaded sid session w')") auto
  have w'': "w'' = snd (getAllSessions env net (loadSession_loaded sid session w'))"
    using g by simp
  show ?thesis
    unfolding loadSession_def c
    by (simp add: g, simp add: w'' getAllSessions_snd w' getSession_snd loadSession_loaded_def
        loadSession_before_def setters)
qed

text \<open>While the request of \<^const>\<open>loadSession\<close> is pending, the list on screen is empty.\<close>

lemma loadSession_pending:
  "\<exists>x rest. drop (length (traffic w)) (traffic (snd (loadSession env net sid w))) = x # rest
       \<and> on_screen x = (agent w)\<lparr>isLoading := True, messages := []\<rparr>"
proof (cases "fst (getSession env net sid w)")
  case (Inl e)
  then show ?thesis by (simp add: loadSession_failure)
next
  case (Inr session)
  from loadSession_success [OF this]
  have m: "map on_screen (drop (length (traffic w)) (traffic (snd (loadSession env net sid w))))
        = [(agent w)\<lparr>isLoading := True, messages := []\<rparr>,
           (agent w)\<lparr>isLoading := True, isInitialized := True,
                     messages := session_messages session, sessionId := Some sid\<rparr>]"
    by simp
  then obtain x rest where
    "drop (length (traffic w)) (traffic (snd (loadSession env net sid w))) = x # rest"
    by (cases "drop (length (traffic w)) (traffic (snd (loadSession env net sid w)))") auto
  with m show ?thesis by auto
qed

text \<open>
  C3 (corrected). When the answer of \<^verbatim>\<open>getSession\<close> is there, \<^verbatim>\<open>loadSession(id)\<close> sets the
  active id to \<^verbatim>\<open>id\<close> and the message list to the fetched messages in one synchronous
  step, whatever the state at that moment (first two lines), so a load that succeeds ends
  with the two paired; a session creation that succeeds sets the new id and the empty
  list together. The replacement is not atomic over the whole call: the message list is
  cleared before the request is sent, so while the request is pending the context holds
  the previous active id with an empty list, and it stays so when the request fails.
\<close>

theorem loadSession_pairs_id_and_messages:
  "sessionId (agent (loadSession_loaded sid session w0)) = Some sid
   \<and> messages (agent (loadSession_loaded sid session w0)) = session_messages session
   \<and> (fst (getSession env net sid w) = Inr session \<longrightarrow>
        fst (loadSession env net sid w) = Inr ()
      \<and> sessionId (agent (snd (loadSession env net sid w))) = Some sid
      \<and> messages (agent (snd (loadSession env net sid w))) = session_messages session)
   \<and> (fst (createSession env net settings w) = Inr rsp \<longrightarrow>
        sessionId (agent (snd (initializeSession env net settings w)))
          = Some (created_session_id rsp)
      \<and> messages (agent (snd (initializeSession env net settings w))) = [])
   \<and> (\<exists>x rest. drop (length (traffic w)) (traffic (snd (loadSession env net sid w))) = x # rest
         \<and> sessionId (on_screen x) = sessionId (agent w) \<and> messages (on_screen x) = [])
   \<and> (fst (getSession env net sid w) = Inl e \<longrightarrow>
        fst (loadSession env net sid w) = Inl e
      \<and> sessionId (agent (snd (loadSession env net sid w))) = sessionId (agent w)
      \<and> messages (agent (snd (loadSession env net sid w))) = [])"
proof -
  obtain x rest where
    "drop (length (traffic w)) (traffic (snd (loadSession env net sid w))) = x # rest"
    "on_screen x = (agent w)\<lparr>isLoading := True, messages := []\<rparr>"
    using loadSession_pending by blast
  then have "\<exists>x rest. drop (length (traffic w)) (traffic (snd (loadSession env net sid w)))
                 = x # rest
         \<and> sessionId (on_screen x) = sessionId (agent w) \<and> messages (on_screen x) = []"
    by simp
  then show ?thesis
    by (simp add: loadSession_loaded_def setters loadSession_success loadSession_failure
        initializeSession_success)
qed

lemma getSession_failed:
  "fst (getSession demo_env (answer_all (Resolved server_error)) sid active_world)
     = Inl (Error ''Failed to get session: Internal Server Error'')"
  by (simp add: getSession_def fetch_def answer_all_def server_error_def ok_def)

lemma getSession_found:
  "fst (getSession demo_env (answer_all (Resolved (ok_response ''xyz''))) sid active_world)
     = Inr \<lparr>session_id = ''xyz'',
            session_messages = [\<lparr>role = Assistant, content = ''Welcome back''\<rparr>],
            title = None, createdAt = None, lastMessageAt = None\<rparr>"
  by (simp add: getSession_def fetch_def answer_all_def ok_response_def ok_def demo_env_def)

lemma createSession_fresh:
  "fst (createSession demo_env (answer_all (Resolved (ok_response ''fresh''))) s active_world)
     = Inr \<lparr>created_session_id = ''fresh'', created_message = ''ok''\<rparr>"
  by (simp add: createSession_def fetch_def answer_all_def ok_response_def ok_def demo_env_def)

theorem loadSession_pairs_id_and_messages_witness:
  "sessionId (agent (snd (loadSession demo_env (answer_all (Resolved (ok_response ''xyz'')))
                            ''xyz'' active_world))) = Some ''xyz''
   \<and> messages (agent (snd (loadSession demo_env (answer_all (Resolved (ok_response ''xyz'')))
                            ''xyz'' active_world)))
        = [\<lparr>role = Assistant, content = ''Welcome back''\<rparr>]
   \<and> sessionId (agent (snd (initializeSession demo_env
                              (answer_all (Resolved (ok_response ''fresh'')))
                              defaultOrganizationSettings active_world))) = Some ''fresh''
   \<and> messages (agent (snd (initializeSession demo_env
                              (answer_all (Resolved (ok_response ''fresh'')))
                              defaultOrganizationSettings active_world))) = []
   \<and> fst (loadSession demo_env (answer_all (Resolved server_error)) ''xyz'' active_world)
        = Inl (Error ''Failed to get session: Internal Server Error'')
   \<and> sessionId (agent (snd (loadSession demo_env (answer_all (Resolved server_error))
                               ''xyz'' active_world))) = Some ''abc''
   \<and> messages (agent (snd (loadSession demo_env (answer_all (Resolved server_error))
                               ''xyz'' active_world))) = []"
proof -
  note t = loadSession_pairs_id_and_messages
             [where w = active_world and env = demo_env and sid = "''xyz''"]
  from t [where net = "answer_all (Resolved (ok_response ''xyz''))"
            and session = "\<lparr>session_id = ''xyz'',
            session_messages = [\<lparr>role = Assistant, content = ''Welcome back''\<rparr>],
            title = None, createdAt = None, lastMessageAt = None\<rparr>"]
       t [where net = "answer_all (Resolved (ok_response ''fresh''))"
            and settings = defaultOrganizationSettings
            and rsp = "\<lparr>created_session_id = ''fresh'', created_message = ''ok''\<rparr>"]
       t [where net = "answer_all (Resolved server_error)"
            and e = "Error ''Failed to get session: Internal Server Error''"]
  show ?thesis
    by (simp add: getSession_failed getSession_found createSession_fresh active_world_simps)
qed

text \<open>
  The claim as stated fails: a load that fails has replaced the message list of the
  active session \<^verbatim>\<open>abc\<close> and has kept its id.
\<close>

theorem loadSession_failure_keeps_id_clears_messages:
  "sessionId (agent active_world) = Some ''abc''
   \<and> messages (agent active_world) = [hello_message]
   \<and> sessionId (agent (snd (loadSession demo_env (answer_all (Resolved server_error))
                               ''xyz'' active_world))) = Some ''abc''
   \<and> messages (agent (snd (loadSession demo_env (answer_all (Resolved server_error))
                               ''xyz'' active_world))) = []"
  by (simp add: loadSession_failure [OF getSession_failed] active_world_simps)

section \<open>Sending a message through the context\<close>

lemma direct_chat_traffic:
  "traffic (snd (direct_chat cl env net msg w)) =
     traffic w @ [\<lparr>sent = \<lparr>req_method = POST, url = ''http://localhost:8000/chat'',
                       headers = json_headers, body = Message_body (cl_sessionId cl) msg\<rparr>,
                   on_screen = agent w\<rparr>]"
  by (simp add: direct_chat_def fetch_def setters split: fetch_result.splits sum.splits)

lemma direct_chat_not_ok:
  assumes "net (map sent (traffic w))
             \<lparr>req_method = POST, url = ''http://localhost:8000/chat'',
              headers = json_headers, body = Message_body (cl_sessionId cl) msg\<rparr> = Resolved r"
      and "\<not> ok r"
  shows "direct_chat cl env net msg w =
     (Inl (Error (''API error: '' @ string_of_nat (status r) @ '' '' @ statusText r)),
      w\<lparr>traffic := traffic w @
          [\<lparr>sent = \<lparr>req_method = POST, url = ''http://localhost:8000/chat'',
                     headers = json_headers, body = Message_body (cl_sessionId cl) msg\<rparr>,
            on_screen = agent w\<rparr>]\<rparr>)"
  using assms by (simp add: direct_chat_def fetch_def)

text \<open>
  The first request of \<^const>\<open>send_with_session\<close> is the chat request, sent while the
  user message is already on screen.
\<close>

lemma send_with_session_traffic:
  "\<exists>rest. traffic (snd (send_with_session cl env net msg w)) =
     traffic w @
     \<lparr>sent = \<lparr>req_method = POST, url = ''http://localhost:8000/chat'',
               headers = json_headers, body = Message_body (cl_sessionId cl) msg\<rparr>,
      on_screen = (agent w)\<lparr>isLoading := True,
                    messages := messages (agent w) @ [\<lparr>role = User, content = msg\<rparr>]\<rparr>\<rparr> # rest"
proof -
  let ?w1 = "setMessages (\<lambda>prev. prev @ [\<lparr>role = User, content = msg\<rparr>]) (setIsLoading True w)"
  obtain r w' where d: "direct_chat cl env net msg ?w1 = (r, w')"
    by (cases "direct_chat cl env net msg ?w1") auto
  have t: "traffic w' = traffic w @
      [\<lparr>sent = \<lparr>req_method = POST, url = ''http://localhost:8000/chat'',
                 headers = json_headers, body = Message_body (cl_sessionId cl) msg\<rparr>,
        on_screen = (agent w)\<lparr>isLoading := True,
                      messages := messages (agent w) @ [\<lparr>role = User, content = msg\<rparr>]\<rparr>\<rparr>]"
    using direct_chat_traffic [of cl env net msg ?w1] d by (simp add: setters)
  show ?thesis
  proof (cases r)
    case (Inr u)
    then show ?thesis unfolding send_with_session_def d by (simp add: setters t)
  next
    case (Inl e)
    show ?thesis
    proof (cases "is404 e")
      case False
      then show ?thesis unfolding send_with_session_def d using Inl by (simp add: setters t)
    next
      case True
      let ?w2 = "setMessages (\<lambda>prev. prev @ [expired_message]) w'"
      obtain r2 w'' where
        i: "initializeSession env net (organization (cl_currentSettings cl)) ?w2 = (r2, w'')"
        by (cases "initializeSession env net (organization (cl_currentSettings cl)) ?w2") auto
      have "traffic w'' = traffic ?w2 @
          [\<lparr>sent = \<lparr>req_method = POST, url = API_BASE_URL env @ ''/sessions'',
                     headers = json_headers,
                     body = Session_body (organization (cl_currentSettings cl))\<rparr>,
            on_screen = (agent ?w2)\<lparr>isLoading := True\<rparr>\<rparr>]"
        using initializeSession_traffic [of env net "organization (cl_currentSettings cl)" ?w2] i
        by simp
      then show ?thesis unfolding send_with_session_def d using Inl True
        by (simp add: i) (simp add: setters t)
    qed
  qed
qed

text \<open>
  A chat request answered with status 404, followed by a session creation that succeeds:
  the whole effect of \<^const>\<open>sendUserMessage\<close>.
\<close>

lemma send_404_recovery:
  fixes w :: world and env :: environment and net :: network and msg :: string
  defines "chat \<equiv> \<lparr>req_method = POST, url = ''http://localhost:8000/chat'',
                    headers = json_headers, body = Message_body (sessionId (agent w)) msg\<rparr>"
      and "create \<equiv> \<lparr>req_method = POST, url = API_BASE_URL env @ ''/sessions'',
                      headers = json_headers,
                      body = Session_body (organization (currentSettings (agent w)))\<rparr>"
  assumes active: "\<not> no_session (sessionId (agent w))"
      and lost: "net (map sent (traffic w)) chat = Resolved r" "status r = 404"
      and created: "net (map sent (traffic w) @ [chat]) create = Resolved r2" "ok r2"
                   "json_SessionResponse env (body_text r2) = Inr rsp"
  shows "sendUserMessage (render w) env net msg w =
     (Inr (),
      w\<lparr>agent := (agent w)\<lparr>isLoading := False, isInitialized := True,
                            messages := [newSessionMessage],
                            sessionId := Some (created_session_id rsp)\<rparr>,
        localStorage := (localStorage w)(''lastSessionId'' \<mapsto> created_session_id rsp),
        traffic := traffic w @
          [\<lparr>sent = chat,
            on_screen = (agent w)\<lparr>isLoading := True,
                          messages := messages (agent w) @ [\<lparr>role = User, content = msg\<rparr>]\<rparr>\<rparr>,
           \<lparr>sent = create,
            on_screen = (agent w)\<lparr>isLoading := True,
                          messages := messages (agent w) @
                                      [\<lparr>role = User, content = msg\<rparr>, expired_message]\<rparr>\<rparr>]\<rparr>)"
proof -
  let ?cl = "render w"
  let ?w1 = "setMessages (\<lambda>prev. prev @ [\<lparr>role = User, content = msg\<rparr>]) (setIsLoading True w)"
  have nok: "\<not> ok r" using lost(2) by (simp add: ok_def)
  define err where "err = Error (''API error: '' @ string_of_nat 404 @ '' '' @ statusText r)"
  have e404: "is404 err" unfolding err_def by (rule is404_status)
  have "net (map sent (traffic ?w1))
          \<lparr>req_method = POST, url = ''http://localhost:8000/chat'',
           headers = json_headers, body = Message_body (cl_sessionId ?cl) msg\<rparr> = Resolved r"
    using lost(1) by (simp add: chat_def render_def setters)
  from direct_chat_not_ok [where cl = "render w" and w = ?w1 and env = env and net = net
                             and msg = msg and r = r, OF this nok]
  have d: "direct_chat ?cl env net msg ?w1 =
     (Inl err, ?w1\<lparr>traffic := traffic ?w1 @ [\<lparr>sent = chat, on_screen = agent ?w1\<rparr>]\<rparr>)"
    by (simp add: lost(2) chat_def render_def err_def)
  let ?w2 = "setMessages (\<lambda>prev. prev @ [expired_message])
               (?w1\<lparr>traffic := traffic ?w1 @ [\<lparr>sent = chat, on_screen = agent ?w1\<rparr>]\<rparr>)"
  have "net (map sent (traffic ?w2))
          \<lparr>req_method = POST, url = API_BASE_URL env @ ''/sessions'', headers = json_headers,
           body = Session_body (organization (cl_currentSettings ?cl))\<rparr> = Resolved r2"
    using created(1) by (simp add: create_def render_def setters)
  from createSession_ok [where w = ?w2 and env = env and net = net and r = r2
                           and s = "organization (cl_currentSettings (render w))",
                         OF this created(2)]
  have "fst (createSession env net (organization (cl_currentSettings ?cl)) ?w2) = Inr rsp"
    by (simp add: created(3))
  note i = initializeSession_success [OF this]
  have cs: "\<lparr>organization = organization (currentSettings (agent w))\<rparr> = currentSettings (agent w)"
    by simp
  show ?thesis
    using active
    unfolding sendUserMessage_def send_with_session_def
    by (simp add: render_def [symmetric] d e404 i)
       (simp add: setters render_def chat_def create_def cs)
qed

text \<open>
  C2 (corrected). A send whose chat request is answered with status 404, and whose
  session creation then succeeds: the user message is on screen while the chat request is
  pending, the user message followed by one "session expired" notice while the session
  creation is pending; the new session then starts with an empty list, so the resulting
  message list is the "new session created" notice alone.
\<close>

theorem expired_session_recovery:
  assumes "\<not> no_session (sessionId (agent w))"
      and "net (map sent (traffic w))
             \<lparr>req_method = POST, url = ''http://localhost:8000/chat'', headers = json_headers,
              body = Message_body (sessionId (agent w)) msg\<rparr> = Resolved r"
      and "status r = 404"
      and "net (map sent (traffic w) @
                  [\<lparr>req_method = POST, url = ''http://localhost:8000/chat'',
                    headers = json_headers, body = Message_body (sessionId (agent w)) msg\<rparr>])
             \<lparr>req_method = POST, url = API_BASE_URL env @ ''/sessions'', headers = json_headers,
              body = Session_body (organization (currentSettings (agent w)))\<rparr> = Resolved r2"
      and "ok r2"
      and "json_SessionResponse env (body_text r2) = Inr rsp"
  shows "fst (sendUserMessage (render w) env net msg w) = Inr ()
       \<and> messages (agent (snd (sendUserMessage (render w) env net msg w))) = [newSessionMessage]
       \<and> sessionId (agent (snd (sendUserMessage (render w) env net msg w)))
           = Some (created_session_id rsp)
       \<and> map (\<lambda>x. messages (on_screen x))
            (drop (length (traffic w)) (traffic (snd (sendUserMessage (render w) env net msg w))))
           = [messages (agent w) @ [\<lparr>role = User, content = msg\<rparr>],
              messages (agent w) @ [\<lparr>role = User, content = msg\<rparr>, expired_message]]"
  by (simp add: send_404_recovery [OF assms])

lemma forgetful_backend_chat:
  "forgetful_backend h \<lparr>req_method = POST, url = ''http://localhost:8000/chat'',
                         headers = json_headers, body = Message_body s m\<rparr> = Resolved not_found"
  by (simp add: forgetful_backend_def)

lemma forgetful_backend_create:
  "forgetful_backend h \<lparr>req_method = POST, url = u, headers = json_headers,
                         body = Session_body s\<rparr> = Resolved (ok_response ''fresh'')"
  by (simp add: forgetful_backend_def)

lemma fresh_session:
  "status not_found = 404"
  "ok (ok_response ''fresh'')"
  "json_SessionResponse demo_env (body_text (ok_response ''fresh''))
     = Inr \<lparr>created_session_id = ''fresh'', created_message = ''ok''\<rparr>"
  by (simp_all add: not_found_def ok_def ok_response_def demo_env_def)

theorem expired_session_recovery_witness:
  "\<not> no_session (sessionId (agent active_world)) \<and> status not_found = 404
   \<and> ok (ok_response ''fresh'')
   \<and> messages (agent (snd (sendUserMessage (render active_world) demo_env forgetful_backend
                               ''Hi'' active_world))) = [newSessionMessage]
   \<and> sessionId (agent (snd (sendUserMessage (render active_world) demo_env forgetful_backend
                               ''Hi'' active_world))) = Some ''fresh''
   \<and> map (\<lambda>x. messages (on_screen x))
        (traffic (snd (sendUserMessage (render active_world) demo_env forgetful_backend
                         ''Hi'' active_world)))
       = [[hello_message, \<lparr>role = User, content = ''Hi''\<rparr>],
          [hello_message, \<lparr>role = User, content = ''Hi''\<rparr>, expired_message]]"
proof -
  from expired_session_recovery
         [where w = active_world and msg = "''Hi''" and env = demo_env and net = forgetful_backend,
          OF active_has_session forgetful_backend_chat fresh_session(1)
             forgetful_backend_create fresh_session(2,3)]
  show ?thesis
    using active_has_session fresh_session(1,2) by (simp add: active_world_simps)
qed

text \<open>
  The claim as stated fails: after the recovery the list holds neither the "session
  expired" notice nor the user message.
\<close>

theorem expired_notice_and_user_message_are_cleared:
  "status not_found = 404
   \<and> messages (agent (snd (sendUserMessage (render active_world) demo_env forgetful_backend
                               ''Hi'' active_world))) = [newSessionMessage]
   \<and> expired_message \<noteq> newSessionMessage
   \<and> \<lparr>role = User, content = ''Hi''\<rparr> \<noteq> newSessionMessage"
proof -
  have "messages (agent (snd (sendUserMessage (render active_world) demo_env forgetful_backend
                               ''Hi'' active_world))) = [newSessionMessage]"
    by (simp add: send_404_recovery
        [where w = active_world and msg = "''Hi''" and env = demo_env and net = forgetful_backend,
         OF active_has_session forgetful_backend_chat fresh_session(1)
            forgetful_backend_create fresh_session(2,3)])
  then show ?thesis
    by (simp add: fresh_session(1) expired_message_def newSessionMessage_def)
qed

text \<open>
  C1 (the code departs from the claim). A send from a render that has no session id
  issues one request, the session creation, and no chat request: the second test of the
  session id reads the value of the same render, so the call ends with the "unable to
  initialize" notice as the message list and the message is not sent.
\<close>

theorem send_without_session_drops_message:
  assumes "no_session (sessionId (agent w))"
  shows "fst (sendUserMessage (render w) env net msg w) = Inr ()
       \<and> map sent (traffic (snd (sendUserMessage (render w) env net msg w)))
           = map sent (traffic w) @
             [\<lparr>req_method = POST, url = API_BASE_URL env @ ''/sessions'', headers = json_headers,
               body = Session_body (organization (currentSettings (agent w)))\<rparr>]
       \<and> messages (agent (snd (sendUserMessage (render w) env net msg w))) = [unable_message]"
proof -
  obtain r w' where
    i: "initializeSession env net (organization (currentSettings (agent w))) w = (r, w')"
    by (cases "initializeSession env net (organization (currentSettings (agent w))) w") auto
  have t: "traffic w' = traffic w @
      [\<lparr>sent = \<lparr>req_method = POST, url = API_BASE_URL env @ ''/sessions'',
                 headers = json_headers,
                 body = Session_body (organization (currentSettings (agent w)))\<rparr>,
        on_screen = (agent w)\<lparr>isLoading := True\<rparr>\<rparr>]"
    using initializeSession_traffic [of env net "organization (currentSettings (agent w))" w] i
    by simp
  show ?thesis
    using assms by (simp add: sendUserMessage_def render_def i t setMessages_def)
qed

theorem send_without_session_drops_message_witness:
  "no_session (sessionId (agent initial_world))
   \<and> map sent (traffic (snd (sendUserMessage (render initial_world) demo_env
                         (answer_all (Resolved (ok_response ''abc''))) ''Hi'' initial_world)))
       = [\<lparr>req_method = POST, url = ''https://api.example.com/sessions'', headers = json_headers,
           body = Session_body defaultOrganizationSettings\<rparr>]
   \<and> messages (agent (snd (sendUserMessage (render initial_world) demo_env
                         (answer_all (Resolved (ok_response ''abc''))) ''Hi'' initial_world)))
       = [unable_message]"
proof -
  have n: "no_session (sessionId (agent initial_world))"
    by (simp add: initial_world_simps)
  from send_without_session_drops_message
         [OF n, of demo_env "answer_all (Resolved (ok_response ''abc''))" "''Hi''"]
  show ?thesis using n by (simp add: initial_world_simps demo_base_url)
qed

text \<open>
  C5 (the code departs from the claim). A send from a render that has a session id posts
  the message to the fixed address \<^verbatim>\<open>http://localhost:8000/chat\<close>, whatever the base URL
  of the API client is.
\<close>

theorem context_send_posts_to_localhost:
  assumes "\<not> no_session (sessionId (agent w))"
  shows "\<exists>rest. map sent (drop (length (traffic w))
                      (traffic (snd (sendUserMessage (render w) env net msg w))))
           = \<lparr>req_method = POST, url = ''http://localhost:8000/chat'', headers = json_headers,
              body = Message_body (sessionId (agent w)) msg\<rparr> # rest"
proof -
  from send_with_session_traffic [of "render w" env net msg w]
  obtain rest where "traffic (snd (send_with_session (render w) env net msg w)) =
     traffic w @
     \<lparr>sent = \<lparr>req_method = POST, url = ''http://localhost:8000/chat'',
               headers = json_headers, body = Message_body (cl_sessionId (render w)) msg\<rparr>,
      on_screen = (agent w)\<lparr>isLoading := True,
                    messages := messages (agent w) @ [\<lparr>role = User, content = msg\<rparr>]\<rparr>\<rparr> # rest"
    by blast
  then show ?thesis using assms by (simp add: sendUserMessage_def render_def)
qed

theorem context_send_posts_to_localhost_witness:
  "\<not> no_session (sessionId (agent active_world))
   \<and> (\<exists>rest. map sent (traffic (snd (sendUserMessage (render active_world) demo_env
                         (answer_all (Resolved (ok_response ''Hello!''))) ''Hi'' active_world)))
       = \<lparr>req_method = POST, url = ''http://localhost:8000/chat'', headers = json_headers,
              body = Message_body (Some ''abc'') ''Hi''\<rparr> # rest)
   \<and> API_BASE_URL demo_env = ''https://api.example.com''"
proof -
  from context_send_posts_to_localhost [OF active_has_session,
         of demo_env "answer_all (Resolved (ok_response ''Hello!''))" "''Hi''"]
  show ?thesis using demo_base_url active_has_session by (simp add: active_world_simps)
qed

section \<open>Submitting from the chat page\<close>

lemma submit_chat_traffic:
  "traffic (snd (submit_chat env net sid currentInput w)) =
     traffic w @
     [\<lparr>sent = \<lparr>req_method = POST, url = template (NEXT_PUBLIC_API_URL env) @ ''/chat'',
                headers = json_headers, body = Message_body (Some sid) currentInput\<rparr>,
       on_screen = agent w\<rparr>]"
  by (simp add: submit_chat_def fetch_def page_setMessages_def
      split: fetch_result.splits sum.splits)

lemma submit_chat_storage:
  "localStorage (snd (submit_chat env net sid currentInput w)) = localStorage w"
  by (simp add: submit_chat_def fetch_def page_setMessages_def
      split: fetch_result.splits sum.splits)

lemma submit_try_creates_once:
  assumes "localStorage w ''lastSessionId'' = None \<or> localStorage w ''lastSessionId'' = Some []"
      and "net (map sent (traffic w))
             \<lparr>req_method = POST, url = template (NEXT_PUBLIC_API_URL env) @ ''/sessions'',
              headers = json_headers, body = Session_body (page_settings env w)\<rparr> = Resolved r"
      and "ok r" and "json_SessionResponse env (body_text r) = Inr rsp"
  shows "map sent (traffic (snd (submit_try env net currentInput w))) =
           map sent (traffic w) @
           [\<lparr>req_method = POST, url = template (NEXT_PUBLIC_API_URL env) @ ''/sessions'',
             headers = json_headers, body = Session_body (page_settings env w)\<rparr>,
            \<lparr>req_method = POST, url = template (NEXT_PUBLIC_API_URL env) @ ''/chat'',
             headers = json_headers,
             body = Message_body (Some (created_session_id rsp)) currentInput\<rparr>]
       \<and> localStorage (snd (submit_try env net currentInput w)) ''lastSessionId''
           = Some (created_session_id rsp)"
proof -
  have s: "\<not> truthy (case localStorage w ''lastSessionId'' of Some s \<Rightarrow> s | None \<Rightarrow> [])"
    using assms(1) by (auto simp add: truthy_def)
  show ?thesis
    unfolding submit_try_def Let_def
    using s assms(2-4)
    by (simp add: fetch_def submit_chat_traffic submit_chat_storage localStorage_setItem_def)
qed

lemma submit_try_reuses:
  assumes "localStorage w ''lastSessionId'' = Some sid" and "truthy sid"
  shows "map sent (traffic (snd (submit_try env net currentInput w))) =
           map sent (traffic w) @
           [\<lparr>req_method = POST, url = template (NEXT_PUBLIC_API_URL env) @ ''/chat'',
             headers = json_headers, body = Message_body (Some sid) currentInput\<rparr>]
       \<and> localStorage (snd (submit_try env net currentInput w)) = localStorage w"
  using assms by (simp add: submit_try_def submit_chat_traffic submit_chat_storage)

lemma page_setters_keep:
  "traffic (page_setIsLoading b w) = traffic w"
  "traffic (page_setMessages f w) = traffic w"
  "traffic (setInput v w) = traffic w"
  "localStorage (page_setIsLoading b w) = localStorage w"
  "localStorage (page_setMessages f w) = localStorage w"
  "localStorage (setInput v w) = localStorage w"
  by (simp_all add: page_setIsLoading_def page_setMessages_def setInput_def)

lemma page_settings_keep:
  "page_settings env (page_setIsLoading b (page_setMessages f (setInput v w))) = page_settings env w"
  by (simp add: page_settings_def getPersonality_def getCustomPrompt_def getBackgroundTexts_def
      getEnabledTools_def page_setters_keep)

text \<open>
  The page's own submit handler does what the context's send misses: without a stored
  session id it creates one session and posts the message with the new id, which it
  stores; with a stored id it posts the message with that id and creates nothing.
\<close>

lemma handleSubmit_creates_then_sends:
  assumes "truthy (trim (input (page w)))" and "\<not> page_isLoading (page w)"
      and "\<not> isLoading (agent w)"
      and "localStorage w ''lastSessionId'' = None \<or> localStorage w ''lastSessionId'' = Some []"
      and "net (map sent (traffic w))
             \<lparr>req_method = POST, url = template (NEXT_PUBLIC_API_URL env) @ ''/sessions'',
              headers = json_headers, body = Session_body (page_settings env w)\<rparr> = Resolved r"
      and "ok r" and "json_SessionResponse env (body_text r) = Inr rsp"
  shows "map sent (traffic (handleSubmit (page_render w) env net w)) =
           map sent (traffic w) @
           [\<lparr>req_method = POST, url = template (NEXT_PUBLIC_API_URL env) @ ''/sessions'',
             headers = json_headers, body = Session_body (page_settings env w)\<rparr>,
            \<lparr>req_method = POST, url = template (NEXT_PUBLIC_API_URL env) @ ''/chat'',
             headers = json_headers,
             body = Message_body (Some (created_session_id rsp)) (input (page w))\<rparr>]
       \<and> localStorage (handleSubmit (page_render w) env net w) ''lastSessionId''
           = Some (created_session_id rsp)"
proof -
  let ?w1 = "page_setIsLoading True
               (page_setMessages (\<lambda>prev. prev @ [\<lparr>role = User, content = input (page w)\<rparr>])
                 (setInput [] w))"
  have a: "localStorage ?w1 ''lastSessionId'' = None \<or> localStorage ?w1 ''lastSessionId'' = Some []"
    using assms(4) by (simp add: page_setters_keep)
  have b: "net (map sent (traffic ?w1))
             \<lparr>req_method = POST, url = template (NEXT_PUBLIC_API_URL env) @ ''/sessions'',
              headers = json_headers, body = Session_body (page_settings env ?w1)\<rparr> = Resolved r"
    using assms(5) by (simp add: page_setters_keep page_settings_keep)
  note t = submit_try_creates_once
             [where w = ?w1 and env = env and net = net and r = r and rsp = rsp
                and currentInput = "input (page w)", OF a b assms(6,7)]
  obtain res w' where s: "submit_try env net (input (page w)) ?w1 = (res, w')"
    by (cases "submit_try env net (input (page w)) ?w1") auto
  show ?thesis
    using assms(1-3) t s
    by (cases res)
       (simp_all add: handleSubmit_def page_render_def page_setters_keep page_settings_keep)
qed

lemma handleSubmit_reuses_session:
  assumes "truthy (trim (input (page w)))" and "\<not> page_isLoading (page w)"
      and "\<not> isLoading (agent w)"
      and "localStorage w ''lastSessionId'' = Some sid" and "truthy sid"
  shows "map sent (traffic (handleSubmit (page_render w) env net w)) =
           map sent (traffic w) @
           [\<lparr>req_method = POST, url = template (NEXT_PUBLIC_API_URL env) @ ''/chat'',
             headers = json_headers, body = Message_body (Some sid) (input (page w))\<rparr>]
       \<and> localStorage (handleSubmit (page_render w) env net w) = localStorage w"
proof -
  let ?w1 = "page_setIsLoading True
               (page_setMessages (\<lambda>prev. prev @ [\<lparr>role = User, content = input (page w)\<rparr>])
                 (setInput [] w))"
  have a: "localStorage ?w1 ''lastSessionId'' = Some sid"
    using assms(4) by (simp add: page_setters_keep)
  note t = submit_try_reuses
             [where w = ?w1 and env = env and net = net and sid = sid
                and currentInput = "input (page w)", OF a assms(5)]
  obtain res w' where s: "submit_try env net (input (page w)) ?w1 = (res, w')"
    by (cases "submit_try env net (input (page w)) ?w1") auto
  show ?thesis
    using assms(1-3) t s
    by (cases res) (simp_all add: handleSubmit_def page_render_def page_setters_keep)
qed

section \<open>Normalization of the message text\<close>

lemma line_terminator_is_space: "is_line_terminator c \<Longrightarrow> is_space c"
  by (auto simp add: is_line_terminator_def is_space_def)

lemma rest_of_line_exact:
  assumes "\<forall>c\<in>set t. \<not> is_line_terminator c" and "rest = [] \<or> is_line_terminator (hd rest)"
  shows "rest_of_line (t @ rest) = (t, rest)"
proof -
  have a: "takeWhile (\<lambda>c. \<not> is_line_terminator c) rest = []"
    using assms(2) by (cases rest) auto
  have b: "dropWhile (\<lambda>c. \<not> is_line_terminator c) rest = rest"
    using assms(2) by (cases rest) auto
  show ?thesis
    using assms(1) by (simp add: rest_of_line_def takeWhile_append2 dropWhile_append2 a b)
qed

lemma match_title_line:
  assumes "\<forall>c\<in>set ind. is_space c" and "\<forall>c\<in>set gap. is_space c"
      and "t \<noteq> []" and "\<not> is_space (hd t)"
      and "\<forall>c\<in>set t. \<not> is_line_terminator c"
      and "rest = [] \<or> is_line_terminator (hd rest)"
  shows "match_title (ind @ ''Title:'' @ gap @ t @ rest) = Some (t, rest)"
proof -
  have a: "dropWhile is_space (ind @ ''Title:'' @ gap @ t @ rest) = ''Title:'' @ gap @ t @ rest"
    using assms(1) by (simp add: dropWhile_append2 is_space_def)
  have b: "dropWhile is_space (gap @ t @ rest) = t @ rest"
    using assms(2,3,4) by (cases t) (simp_all add: dropWhile_append2)
  show ?thesis
    unfolding match_title_def a
    by (simp add: b rest_of_line_exact [OF assms(5,6)])
qed

lemma match_title_None: "match_title s = None \<longleftrightarrow> \<not> prefix ''Title:'' (dropWhile is_space s)"
  by (simp add: match_title_def)

lemma replace_title_skip:
  assumes "\<forall>p s. pre = p @ s \<longrightarrow> s \<noteq> [] \<longrightarrow> (if p = [] then bol else is_line_terminator (last p))
              \<longrightarrow> match_title (s @ m) = None"
      and "match_title m = Some (t, rest)"
      and "if pre = [] then bol else is_line_terminator (last pre)"
  shows "replace_title bol (pre @ m) = pre @ ''# '' @ t @ ''\<newline>'' @ rest"
  using assms
proof (induction pre arbitrary: bol)
  case Nil
  then have "m \<noteq> []" by (auto simp add: match_title_def)
  then obtain c cs where "m = c # cs" by (cases m) auto
  with Nil show ?case by simp
next
  case (Cons c pre)
  have none: "(if bol then match_title (c # pre @ m) else None) = None"
    using Cons.prems(1) [rule_format, of "[]" "c # pre"] by simp
  have ih1: "\<forall>p s. pre = p @ s \<longrightarrow> s \<noteq> [] \<longrightarrow>
       (if p = [] then is_line_terminator c else is_line_terminator (last p))
              \<longrightarrow> match_title (s @ m) = None"
  proof (intro allI impI)
    fix p s assume "pre = p @ s" "s \<noteq> []"
      "if p = [] then is_line_terminator c else is_line_terminator (last p)"
    then show "match_title (s @ m) = None"
      using Cons.prems(1) [rule_format, of "c # p" s] by (cases p) auto
  qed
  have ih3: "if pre = [] then is_line_terminator c else is_line_terminator (last pre)"
    using Cons.prems(3) by (cases pre) auto
  from Cons.IH [OF ih1 Cons.prems(2) ih3] none
  show ?case by simp
qed

lemma includes_str_suffix: "includes_str b n \<Longrightarrow> includes_str (a @ b) n"
proof (induction a)
  case Nil
  then show ?case by simp
next
  case (Cons c a)
  then show ?case by simp
qed

lemma replace_numbered_no_star:
  "CHR ''*'' \<notin> set s \<Longrightarrow> replace_numbered s = s"
proof (induction s)
  case Nil
  show ?case by (subst replace_numbered.simps) (simp add: match_numbered_def)
next
  case (Cons c s)
  then have "match_numbered (c # s) = None" by (auto simp add: match_numbered_def)
  then show ?case using Cons by (subst replace_numbered.simps) simp
qed

lemma set_takeWhile_subset: "set (takeWhile P xs) \<subseteq> set xs"
  by (auto dest: set_takeWhileD)

lemma set_dropWhile_subset: "set (dropWhile P xs) \<subseteq> set xs"
  by (auto dest: set_dropWhileD)

lemma match_numbered_parts:
  assumes "match_numbered s = Some (n, t, rest)"
  shows "set n \<subseteq> set s \<and> set t \<subseteq> set s \<and> set rest \<subseteq> set s"
proof -
  let ?after = "drop 1 (dropWhile is_digit (drop 2 s))"
  have n: "n = takeWhile is_digit (drop 2 s)"
    using assms by (auto simp add: match_numbered_def Let_def split: if_splits)
  have a: "set ?after \<subseteq> set s"
    using set_drop_subset [of 1 "dropWhile is_digit (drop 2 s)"]
          set_dropWhile_subset [of is_digit "drop 2 s"] set_drop_subset [of 2 s]
    by blast
  obtain x where x: "(t, rest) = rest_of_line x" "set x \<subseteq> set ?after"
  proof (cases "prefix ''**'' ?after")
    case True
    then have "(t, rest) = rest_of_line (drop 2 ?after)"
      using assms by (auto simp add: match_numbered_def Let_def split: if_splits)
    then show ?thesis using that set_drop_subset [of 2 ?after] by blast
  next
    case False
    then have "(t, rest) = rest_of_line (dropWhile is_space ?after)"
      using assms by (auto simp add: match_numbered_def Let_def split: if_splits)
    then show ?thesis using that set_dropWhile_subset [of is_space ?after] by blast
  qed
  have "set t \<subseteq> set x" "set rest \<subseteq> set x"
    using x(1) set_takeWhile_subset [of "\<lambda>c. \<not> is_line_terminator c" x]
          set_dropWhile_subset [of "\<lambda>c. \<not> is_line_terminator c" x]
    by (simp_all add: rest_of_line_def)
  moreover have "set n \<subseteq> set s"
    using n set_takeWhile_subset [of is_digit "drop 2 s"] set_drop_subset [of 2 s] by blast
  ultimately show ?thesis using x(2) a by blast
qed

lemma replace_numbered_chars:
  "set (replace_numbered s) \<subseteq> set s \<union> set ''. \<newline>''"
proof (induction s rule: replace_numbered.induct)
  case (1 s)
  show ?case
  proof (cases "match_numbered s")
    case None
    show ?thesis
    proof (cases s)
      case Nil
      then show ?thesis using None by (subst replace_numbered.simps) simp
    next
      case (Cons c cs)
      from "1.IH"(1) [OF None Cons] have "set (replace_numbered cs) \<subseteq> set cs \<union> set ''. \<newline>''" .
      then show ?thesis using None Cons
        by (subst replace_numbered.simps) auto
    qed
  next
    case (Some a)
    then obtain n t rest where m: "match_numbered s = Some (n, t, rest)" by (cases a) auto
    note parts = match_numbered_parts [OF m]
    from "1.IH"(2) [OF m refl refl]
    have "set (replace_numbered rest) \<subseteq> set rest \<union> set ''. \<newline>''" .
    then show ?thesis using parts m by (subst replace_numbered.simps) auto
  qed
qed

lemma no_hash_no_marker: "CHR ''#'' \<notin> set s \<Longrightarrow> \<not> includes_str s ''##''"
  by (induction s) auto

lemma prefix_dropWhile_includes: "prefix n (dropWhile P s) \<Longrightarrow> includes_str s n"
proof -
  assume "prefix n (dropWhile P s)"
  then have "includes_str (dropWhile P s) n" by (rule prefix_includes)
  then have "includes_str (takeWhile P s @ dropWhile P s) n" by (rule includes_str_suffix)
  then show ?thesis by simp
qed

lemma match_section_no_marker: "\<not> includes_str x ''##'' \<Longrightarrow> match_section x = None"
proof -
  assume "\<not> includes_str x ''##''"
  then have "\<not> prefix ''##'' (dropWhile is_space x)"
    using prefix_dropWhile_includes by blast
  then show ?thesis by (simp only: match_section_def simp_thms if_False)
qed

lemma replace_sections_no_marker:
  "\<not> includes_str s ''##'' \<Longrightarrow> replace_sections b s = s"
proof (induction s arbitrary: b)
  case Nil
  have "match_section [] = None" using Nil by (rule match_section_no_marker)
  then show ?case by (subst replace_sections.simps) simp
next
  case (Cons c s)
  have m: "match_section (c # s) = None" using Cons.prems by (rule match_section_no_marker)
  have "\<not> includes_str s ''##''" using Cons.prems by simp
  then have ih: "replace_sections (is_line_terminator c) s = s" by (rule Cons.IH)
  show ?case by (subst replace_sections.simps) (simp add: m ih)
qed

lemma heading_no_marker:
  "CHR ''#'' \<notin> set a \<Longrightarrow> CHR ''#'' \<notin> set b \<Longrightarrow> \<not> includes_str (a @ ''# '' @ b) ''##''"
proof (induction a)
  case Nil
  then show ?case using no_hash_no_marker [of b] by simp
next
  case (Cons c a)
  then show ?case by simp
qed

lemma match_numbered_marker:
  assumes "ds \<noteq> []" and "\<forall>d\<in>set ds. is_digit d"
      and "\<forall>c\<in>set t. \<not> is_line_terminator c"
      and "rest = [] \<or> is_line_terminator (hd rest)"
  shows "match_numbered (''**'' @ ds @ ''.**'' @ t @ rest) = Some (ds, t, rest)"
proof -
  have a: "takeWhile is_digit (ds @ CHR ''.'' # x) = ds" for x
    using assms(2) by (simp add: takeWhile_append2 is_digit_def)
  have b: "dropWhile is_digit (ds @ CHR ''.'' # x) = CHR ''.'' # x" for x
    using assms(2) by (simp add: dropWhile_append2 is_digit_def)
  show ?thesis
    using assms(1) by (simp add: match_numbered_def a b rest_of_line_exact [OF assms(3,4)])
qed

text \<open>
  The first line that begins with \<^verbatim>\<open>Title:\<close> and carries a title: what the first
  replacement makes of the text.
\<close>

lemma title_replaced:
  assumes shape: "doc = pre @ ind @ ''Title:'' @ gap @ t @ rest"
      and line: "pre = [] \<or> is_line_terminator (last pre)"
      and first: "\<forall>p s. pre = p @ s \<longrightarrow> s \<noteq> [] \<longrightarrow> (p = [] \<or> is_line_terminator (last p))
                    \<longrightarrow> \<not> prefix ''Title:''
                          (dropWhile is_space (s @ ind @ ''Title:'' @ gap @ t @ rest))"
      and spaces: "\<forall>c\<in>set ind. is_space c" "\<forall>c\<in>set gap. is_space c"
      and title: "t \<noteq> []" "\<not> is_space (hd t)" "\<forall>c\<in>set t. \<not> is_line_terminator c"
      and rest: "rest = [] \<or> is_line_terminator (hd rest)"
  shows "replace_title True doc = pre @ ''# '' @ t @ ''\<newline>'' @ rest"
    and "includes_str doc ''Title:''"
proof -
  let ?m = "ind @ ''Title:'' @ gap @ t @ rest"
  have m: "match_title ?m = Some (t, rest)"
    by (rule match_title_line [OF spaces title rest])
  have none: "\<forall>p s. pre = p @ s \<longrightarrow> s \<noteq> [] \<longrightarrow>
      (if p = [] then True else is_line_terminator (last p)) \<longrightarrow> match_title (s @ ?m) = None"
    using first by (auto simp add: match_title_None)
  have bol: "if pre = [] then True else is_line_terminator (last pre)" using line by auto
  have "replace_title True (pre @ ?m) = pre @ ''# '' @ t @ ''\<newline>'' @ rest"
    by (rule replace_title_skip [OF none m bol])
  then show "replace_title True doc = pre @ ''# '' @ t @ ''\<newline>'' @ rest"
    by (simp add: shape)
  have "includes_str ((pre @ ind) @ ''Title:'' @ (gap @ t @ rest)) ''Title:''"
    by (rule includes_str_append)
  then show "includes_str doc ''Title:''" by (simp add: shape)
qed

lemma title_promoted:
  assumes "\<not> prefix ''#'' doc"
      and "replace_title True doc = pre @ ''# '' @ t @ ''\<newline>'' @ rest"
      and "includes_str doc ''Title:''"
  shows "formattedContent Assistant doc
           = replace_sections True (replace_numbered (pre @ ''# '' @ t @ ''\<newline>'' @ rest))"
  using assms by (simp add: formattedContent_def)

lemma title_promoted_exact:
  assumes "replace_title True doc = pre @ ''# '' @ t @ ''\<newline>'' @ rest"
      and "includes_str doc ''Title:''"
      and "CHR ''#'' \<notin> set doc" and "CHR ''*'' \<notin> set doc"
      and "set pre \<subseteq> set doc" "set t \<subseteq> set doc" "set rest \<subseteq> set doc"
  shows "formattedContent Assistant doc = pre @ ''# '' @ t @ ''\<newline>'' @ rest"
proof -
  have s: "\<not> prefix ''#'' doc" using assms(3) by (cases doc) auto
  have "CHR ''*'' \<notin> set (pre @ ''# '' @ t @ ''\<newline>'' @ rest)" using assms(4-7) by auto
  then have n: "replace_numbered (pre @ ''# '' @ t @ ''\<newline>'' @ rest)
                  = pre @ ''# '' @ t @ ''\<newline>'' @ rest"
    by (rule replace_numbered_no_star)
  have "CHR ''#'' \<notin> set pre" "CHR ''#'' \<notin> set (t @ ''\<newline>'' @ rest)"
    using assms(3,5-7) by auto
  then have "\<not> includes_str (pre @ ''# '' @ (t @ ''\<newline>'' @ rest)) ''##''"
    by (rule heading_no_marker)
  then have "replace_sections True (pre @ ''# '' @ (t @ ''\<newline>'' @ rest))
               = pre @ ''# '' @ (t @ ''\<newline>'' @ rest)"
    by (rule replace_sections_no_marker)
  then show ?thesis using assms(1,2) s n by (simp add: formattedContent_def)
qed

text \<open>Two adjacent \<^verbatim>\<open>#\<close> in a text built from pieces.\<close>

lemma double_hash_Cons:
  "includes_str (c # s) ''##'' \<longleftrightarrow> (c = CHR ''#'' \<and> prefix ''#'' s) \<or> includes_str s ''##''"
  by auto

lemma double_hash_append:
  "includes_str (a @ b) ''##'' \<longleftrightarrow>
     includes_str a ''##'' \<or> includes_str b ''##''
     \<or> (a \<noteq> [] \<and> last a = CHR ''#'' \<and> prefix ''#'' b)"
proof (induction a)
  case Nil
  then show ?case by simp
next
  case (Cons c a)
  show ?case
  proof (cases a)
    case Nil
    then show ?thesis by (cases b) auto
  next
    case (Cons d a')
    with Cons.IH show ?thesis by auto
  qed
qed

lemma match_numbered_digits:
  assumes "match_numbered s = Some (n, t, rest)"
  shows "n \<noteq> [] \<and> (\<forall>d\<in>set n. is_digit d)"
proof -
  have "n = takeWhile is_digit (drop 2 s)" "n \<noteq> []"
    using assms by (auto simp add: match_numbered_def Let_def split: if_splits)
  then show ?thesis by (auto dest: set_takeWhileD)
qed

lemma replace_numbered_head:
  "prefix ''#'' (replace_numbered s) \<Longrightarrow> prefix ''#'' s"
proof (cases "match_numbered s")
  case None
  assume "prefix ''#'' (replace_numbered s)"
  then show ?thesis using None
    by (subst (asm) replace_numbered.simps) (cases s; simp)
next
  case (Some a)
  then obtain n t rest where m: "match_numbered s = Some (n, t, rest)" by (cases a) auto
  have n: "n \<noteq> []" "\<forall>d\<in>set n. is_digit d" using match_numbered_digits [OF m] by auto
  from n(1) obtain d n' where d: "n = d # n'" by (cases n) auto
  then have "is_digit d" using n(2) by simp
  then have "d \<noteq> CHR ''#''" by (auto simp add: is_digit_def)
  assume "prefix ''#'' (replace_numbered s)"
  then show ?thesis using m d \<open>d \<noteq> CHR ''#''\<close>
    by (subst (asm) replace_numbered.simps) simp
qed

lemma match_numbered_suffix:
  assumes "match_numbered s = Some (n, t, rest)"
  shows "\<exists>pfx. s = pfx @ t @ rest"
proof -
  let ?after = "drop 1 (dropWhile is_digit (drop 2 s))"
  have a: "suffix ?after s"
    by (meson suffix_drop suffix_dropWhile suffix_order.trans)
  obtain y where y: "(t, rest) = rest_of_line y" "suffix y ?after"
  proof (cases "prefix ''**'' ?after")
    case True
    then have "(t, rest) = rest_of_line (drop 2 ?after)"
      using assms by (auto simp add: match_numbered_def Let_def split: if_splits)
    then show ?thesis using that suffix_drop by blast
  next
    case False
    then have "(t, rest) = rest_of_line (dropWhile is_space ?after)"
      using assms by (auto simp add: match_numbered_def Let_def split: if_splits)
    then show ?thesis using that suffix_dropWhile by blast
  qed
  have "y = t @ rest" using y(1) by (simp add: rest_of_line_def)
  moreover have "suffix y s" using y(2) a by (rule suffix_order.trans)
  ultimately show ?thesis by (auto simp add: suffix_def)
qed

lemma replace_numbered_keeps_no_double_hash:
  "\<not> includes_str s ''##'' \<Longrightarrow> \<not> includes_str (replace_numbered s) ''##''"
proof (induction s rule: replace_numbered.induct)
  case (1 s)
  show ?case
  proof (cases "match_numbered s")
    case None
    show ?thesis
    proof (cases s)
      case Nil
      then show ?thesis using None by (subst replace_numbered.simps) simp
    next
      case (Cons c cs)
      have cs: "\<not> includes_str cs ''##''" using "1.prems" Cons by simp
      from "1.IH"(1) [OF None Cons cs]
      have ih: "\<not> includes_str (replace_numbered cs) ''##''" .
      have "\<not> (c = CHR ''#'' \<and> prefix ''#'' (replace_numbered cs))"
      proof
        assume h: "c = CHR ''#'' \<and> prefix ''#'' (replace_numbered cs)"
        then have "prefix ''#'' cs" using replace_numbered_head by blast
        then have "includes_str (c # cs) ''##''" using h by (simp only: double_hash_Cons) simp
        then show False using "1.prems" Cons by simp
      qed
      then have "\<not> includes_str (c # replace_numbered cs) ''##''"
        using ih by (simp only: double_hash_Cons) simp
      moreover have "replace_numbered s = c # replace_numbered cs"
        using None Cons by (subst replace_numbered.simps) simp
      ultimately show ?thesis by simp
    qed
  next
    case (Some a)
    then obtain n t rest where m: "match_numbered s = Some (n, t, rest)" by (cases a) auto
    obtain pfx where s: "s = pfx @ t @ rest" using match_numbered_suffix [OF m] by blast
    have tr: "\<not> includes_str (t @ rest) ''##''"
      using "1.prems" includes_str_suffix [of "t @ rest" "''##''" pfx] s by auto
    then have t: "\<not> includes_str t ''##''" and r: "\<not> includes_str rest ''##''"
      by (simp_all add: double_hash_append)
    from "1.IH"(2) [OF m refl refl r]
    have ih: "\<not> includes_str (replace_numbered rest) ''##''" .
    have n: "n \<noteq> []" "\<forall>d\<in>set n. is_digit d" using match_numbered_digits [OF m] by auto
    have nh: "CHR ''#'' \<notin> set n" using n(2) by (auto simp add: is_digit_def)
    then have n1: "\<not> includes_str n ''##''" by (rule no_hash_no_marker)
    have n2: "last n \<noteq> CHR ''#''" using nh n(1) last_in_set by metis
    have x: "\<not> includes_str (''. '' @ t @ ''\<newline>'' @ replace_numbered rest) ''##''"
      using t ih by (simp add: double_hash_append)
    have "\<not> includes_str (n @ ''. '' @ t @ ''\<newline>'' @ replace_numbered rest) ''##''"
      using n1 n2 x by (subst double_hash_append) simp
    moreover have "replace_numbered s = n @ ''. '' @ t @ ''\<newline>'' @ replace_numbered rest"
      using m by (subst replace_numbered.simps) simp
    ultimately show ?thesis by simp
  qed
qed

lemma heading_keeps_no_double_hash:
  assumes "\<not> includes_str (pre @ ind @ ''Title:'' @ gap @ t @ rest) ''##''"
      and "pre = [] \<or> is_line_terminator (last pre)"
  shows "\<not> includes_str (pre @ ''# '' @ t @ ''\<newline>'' @ rest) ''##''"
proof -
  have p: "\<not> includes_str pre ''##''" using assms(1) by (simp add: double_hash_append)
  have "\<not> includes_str (t @ rest) ''##''"
    using assms(1) includes_str_suffix [of "t @ rest" "''##''" "pre @ ind @ ''Title:'' @ gap"]
    by auto
  then have t: "\<not> includes_str t ''##''" and r: "\<not> includes_str rest ''##''"
    by (simp_all add: double_hash_append)
  have l: "pre \<noteq> [] \<Longrightarrow> last pre \<noteq> CHR ''#''"
    using assms(2) by (auto simp add: is_line_terminator_def)
  have y: "\<not> includes_str (''# '' @ t @ ''\<newline>'' @ rest) ''##''"
    using t r by (simp add: double_hash_append)
  show ?thesis using p y l by (subst double_hash_append) auto
qed

text \<open>The search for markers: text before the first match is copied.\<close>

lemma replace_numbered_first:
  assumes "\<forall>p s. before = p @ s \<longrightarrow> s \<noteq> [] \<longrightarrow> match_numbered (s @ m) = None"
      and "match_numbered m = Some (n, t, rest)"
  shows "replace_numbered (before @ m)
           = before @ n @ ''. '' @ t @ ''\<newline>'' @ replace_numbered rest"
  using assms(1)
proof (induction before)
  case Nil
  show ?case using assms(2) by (subst replace_numbered.simps) simp
next
  case (Cons c before)
  have none: "match_numbered (c # before @ m) = None"
    using Cons.prems [rule_format, of "[]" "c # before"] by simp
  have "\<forall>p s. before = p @ s \<longrightarrow> s \<noteq> [] \<longrightarrow> match_numbered (s @ m) = None"
  proof (intro allI impI)
    fix p s assume "before = p @ s" "s \<noteq> []"
    then show "match_numbered (s @ m) = None"
      using Cons.prems [rule_format, of "c # p" s] by simp
  qed
  then have "replace_numbered (before @ m)
           = before @ n @ ''. '' @ t @ ''\<newline>'' @ replace_numbered rest"
    by (rule Cons.IH)
  then show ?case using none by (subst replace_numbered.simps) simp
qed

text \<open>A text in which no line begins with \<^verbatim>\<open>Title:\<close> is left as it is.\<close>

lemma replace_title_unchanged:
  assumes "\<forall>p s. doc = p @ s \<longrightarrow> s \<noteq> [] \<longrightarrow> (if p = [] then bol else is_line_terminator (last p))
              \<longrightarrow> match_title s = None"
  shows "replace_title bol doc = doc"
  using assms
proof (induction doc arbitrary: bol)
  case Nil
  show ?case by simp
next
  case (Cons c doc)
  have none: "(if bol then match_title (c # doc) else None) = None"
    using Cons.prems [rule_format, of "[]" "c # doc"] by simp
  have "\<forall>p s. doc = p @ s \<longrightarrow> s \<noteq> [] \<longrightarrow>
       (if p = [] then is_line_terminator c else is_line_terminator (last p))
              \<longrightarrow> match_title s = None"
  proof (intro allI impI)
    fix p s assume "doc = p @ s" "s \<noteq> []"
      "if p = [] then is_line_terminator c else is_line_terminator (last p)"
    then show "match_title s = None"
      using Cons.prems [rule_format, of "c # p" s] by (cases p) auto
  qed
  then have "replace_title (is_line_terminator c) doc = doc" by (rule Cons.IH)
  then show ?case using none by simp
qed

lemma title_step_skipped:
  assumes "prefix ''#'' msg \<or> \<not> includes_str msg ''Title:''
           \<or> (\<forall>p s. msg = p @ s \<longrightarrow> (p = [] \<or> is_line_terminator (last p))
                  \<longrightarrow> \<not> prefix ''Title:'' (dropWhile is_space s))"
  shows "formattedContent Assistant msg = replace_sections True (replace_numbered msg)"
proof -
  have "replace_title True msg = msg"
    if "\<forall>p s. msg = p @ s \<longrightarrow> (p = [] \<or> is_line_terminator (last p))
                  \<longrightarrow> \<not> prefix ''Title:'' (dropWhile is_space s)"
    using that by (intro replace_title_unchanged) (auto simp add: match_title_None)
  then show ?thesis using assms by (auto simp add: formattedContent_def)
qed

lemma marker_first:
  assumes "\<forall>p s. before = p @ s \<longrightarrow> s \<noteq> []
             \<longrightarrow> match_numbered (s @ ''**'' @ ds @ ''.**'' @ item @ after) = None"
      and "ds \<noteq> []" and "\<forall>d\<in>set ds. is_digit d"
      and "\<forall>c\<in>set item. \<not> is_line_terminator c"
      and "after = [] \<or> is_line_terminator (hd after)"
  shows "replace_numbered (before @ ''**'' @ ds @ ''.**'' @ item @ after)
           = before @ ds @ ''. '' @ item @ ''\<newline>'' @ replace_numbered after"
  by (rule replace_numbered_first [OF assms(1) match_numbered_marker [OF assms(2-5)]])

lemma sections_leave: "\<not> includes_str x ''##'' \<Longrightarrow>
    replace_sections True (replace_numbered x) = replace_numbered x"
  by (intro replace_sections_no_marker replace_numbered_keeps_no_double_hash)

lemma marker_reformatted:
  assumes "prefix ''#'' msg \<or> \<not> includes_str msg ''Title:''
           \<or> (\<forall>p s. msg = p @ s \<longrightarrow> (p = [] \<or> is_line_terminator (last p))
                  \<longrightarrow> \<not> prefix ''Title:'' (dropWhile is_space s))"
      and "msg = before @ ''**'' @ ds @ ''.**'' @ item @ after"
      and "\<forall>p s. before = p @ s \<longrightarrow> s \<noteq> []
             \<longrightarrow> match_numbered (s @ ''**'' @ ds @ ''.**'' @ item @ after) = None"
      and "ds \<noteq> []" and "\<forall>d\<in>set ds. is_digit d"
      and "\<forall>c\<in>set item. \<not> is_line_terminator c"
      and "after = [] \<or> is_line_terminator (hd after)"
  shows "formattedContent Assistant msg
           = replace_sections True
               (before @ ds @ ''. '' @ item @ ''\<newline>'' @ replace_numbered after)"
    and "\<not> includes_str msg ''##'' \<Longrightarrow>
         formattedContent Assistant msg
           = before @ ds @ ''. '' @ item @ ''\<newline>'' @ replace_numbered after"
    and "\<not> includes_str msg ''##'' \<Longrightarrow> \<not> includes_str msg ''Title:'' \<Longrightarrow>
         formattedContent Assistant msg
           = before @ ds @ ''. '' @ item @ ''\<newline>'' @ formattedContent Assistant after"
proof -
  have f: "formattedContent Assistant msg = replace_sections True (replace_numbered msg)"
    using assms(1) by (rule title_step_skipped)
  have n: "replace_numbered msg
             = before @ ds @ ''. '' @ item @ ''\<newline>'' @ replace_numbered after"
    unfolding assms(2) by (rule marker_first [OF assms(3-7)])
  show "formattedContent Assistant msg
           = replace_sections True
               (before @ ds @ ''. '' @ item @ ''\<newline>'' @ replace_numbered after)"
    using f n by simp
  show e: "formattedContent Assistant msg
           = before @ ds @ ''. '' @ item @ ''\<newline>'' @ replace_numbered after"
    if "\<not> includes_str msg ''##''"
    using f n sections_leave [OF that] by simp
  show "formattedContent Assistant msg
           = before @ ds @ ''. '' @ item @ ''\<newline>'' @ formattedContent Assistant after"
    if h: "\<not> includes_str msg ''##''" and t: "\<not> includes_str msg ''Title:''"
  proof -
    have m: "msg = (before @ ''**'' @ ds @ ''.**'' @ item) @ after" using assms(2) by simp
    have a1: "\<not> includes_str after ''##''"
      using h includes_str_suffix [of after "''##''" "before @ ''**'' @ ds @ ''.**'' @ item"]
      unfolding m by blast
    have a2: "\<not> includes_str after ''Title:''"
      using t includes_str_suffix [of after "''Title:''" "before @ ''**'' @ ds @ ''.**'' @ item"]
      unfolding m by blast
    have "formattedContent Assistant after = replace_sections True (replace_numbered after)"
      using a2 by (intro title_step_skipped) simp
    then have "formattedContent Assistant after = replace_numbered after"
      using sections_leave [OF a1] by simp
    then show ?thesis using e [OF h] by simp
  qed
qed

lemma marker_after_title:
  assumes "\<not> prefix ''#'' doc"
      and "replace_title True doc = promoted"
      and "includes_str doc ''Title:''"
      and "promoted = lead @ ''**'' @ nums @ ''.**'' @ entry @ tail"
      and "\<forall>p s. lead = p @ s \<longrightarrow> s \<noteq> []
             \<longrightarrow> match_numbered (s @ ''**'' @ nums @ ''.**'' @ entry @ tail) = None"
      and "nums \<noteq> []" and "\<forall>d\<in>set nums. is_digit d"
      and "\<forall>c\<in>set entry. \<not> is_line_terminator c"
      and "tail = [] \<or> is_line_terminator (hd tail)"
  shows "formattedContent Assistant doc
           = replace_sections True
               (lead @ nums @ ''. '' @ entry @ ''\<newline>'' @ replace_numbered tail)"
    and "\<not> includes_str promoted ''##'' \<Longrightarrow>
         formattedContent Assistant doc
           = lead @ nums @ ''. '' @ entry @ ''\<newline>'' @ replace_numbered tail"
proof -
  have f: "formattedContent Assistant doc = replace_sections True (replace_numbered promoted)"
    using assms(1-3) by (simp add: formattedContent_def)
  have n: "replace_numbered promoted
             = lead @ nums @ ''. '' @ entry @ ''\<newline>'' @ replace_numbered tail"
    unfolding assms(4) by (rule marker_first [OF assms(5-9)])
  show "formattedContent Assistant doc
           = replace_sections True
               (lead @ nums @ ''. '' @ entry @ ''\<newline>'' @ replace_numbered tail)"
    using f n by simp
  show "formattedContent Assistant doc
           = lead @ nums @ ''. '' @ entry @ ''\<newline>'' @ replace_numbered tail"
    if "\<not> includes_str promoted ''##''"
    using f n sections_leave [OF that] by simp
qed

lemma title_part:
  assumes s: "\<not> prefix ''#'' doc"
      and shape: "doc = pre @ ind @ ''Title:'' @ gap @ t @ rest"
      and line: "pre = [] \<or> is_line_terminator (last pre)"
      and first: "\<forall>p s. pre = p @ s \<longrightarrow> s \<noteq> [] \<longrightarrow> (p = [] \<or> is_line_terminator (last p))
                    \<longrightarrow> \<not> prefix ''Title:''
                          (dropWhile is_space (s @ ind @ ''Title:'' @ gap @ t @ rest))"
      and spaces: "\<forall>c\<in>set ind. is_space c" "\<forall>c\<in>set gap. is_space c"
      and title: "t \<noteq> []" "\<not> is_space (hd t)" "\<forall>c\<in>set t. \<not> is_line_terminator c"
      and rest: "rest = [] \<or> is_line_terminator (hd rest)"
  shows "formattedContent Assistant doc
           = replace_sections True (replace_numbered (pre @ ''# '' @ t @ ''\<newline>'' @ rest))"
    and "CHR ''#'' \<notin> set doc \<and> CHR ''*'' \<notin> set doc
           \<Longrightarrow> formattedContent Assistant doc = pre @ ''# '' @ t @ ''\<newline>'' @ rest"
    and "pre @ ''# '' @ t @ ''\<newline>'' @ rest = lead @ ''**'' @ nums @ ''.**'' @ entry @ tail
            \<and> (\<forall>p s. lead = p @ s \<longrightarrow> s \<noteq> []
                   \<longrightarrow> match_numbered (s @ ''**'' @ nums @ ''.**'' @ entry @ tail) = None)
            \<and> nums \<noteq> [] \<and> (\<forall>d\<in>set nums. is_digit d)
            \<and> (\<forall>c\<in>set entry. \<not> is_line_terminator c)
            \<and> (tail = [] \<or> is_line_terminator (hd tail))
           \<Longrightarrow> formattedContent Assistant doc
                 = replace_sections True
                     (lead @ nums @ ''. '' @ entry @ ''\<newline>'' @ replace_numbered tail)
               \<and> (\<not> includes_str doc ''##''
                  \<longrightarrow> formattedContent Assistant doc
                      = lead @ nums @ ''. '' @ entry @ ''\<newline>'' @ replace_numbered tail)"
proof -
  have r: "replace_title True doc = pre @ ''# '' @ t @ ''\<newline>'' @ rest"
    by (rule title_replaced(1) [OF shape line first spaces title rest])
  have i: "includes_str doc ''Title:''"
    by (rule title_replaced(2) [OF shape line first spaces title rest])
  show "formattedContent Assistant doc
           = replace_sections True (replace_numbered (pre @ ''# '' @ t @ ''\<newline>'' @ rest))"
    using s r i by (rule title_promoted)
  show "formattedContent Assistant doc = pre @ ''# '' @ t @ ''\<newline>'' @ rest"
    if plain: "CHR ''#'' \<notin> set doc \<and> CHR ''*'' \<notin> set doc"
  proof -
    have sub: "set pre \<subseteq> set doc" "set t \<subseteq> set doc" "set rest \<subseteq> set doc"
      unfolding shape by auto
    show ?thesis
      by (rule title_promoted_exact [OF r i plain [THEN conjunct1] plain [THEN conjunct2] sub])
  qed
  show "formattedContent Assistant doc
                 = replace_sections True
                     (lead @ nums @ ''. '' @ entry @ ''\<newline>'' @ replace_numbered tail)
               \<and> (\<not> includes_str doc ''##''
                  \<longrightarrow> formattedContent Assistant doc
                      = lead @ nums @ ''. '' @ entry @ ''\<newline>'' @ replace_numbered tail)"
    if m: "pre @ ''# '' @ t @ ''\<newline>'' @ rest = lead @ ''**'' @ nums @ ''.**'' @ entry @ tail
            \<and> (\<forall>p s. lead = p @ s \<longrightarrow> s \<noteq> []
                   \<longrightarrow> match_numbered (s @ ''**'' @ nums @ ''.**'' @ entry @ tail) = None)
            \<and> nums \<noteq> [] \<and> (\<forall>d\<in>set nums. is_digit d)
            \<and> (\<forall>c\<in>set entry. \<not> is_line_terminator c)
            \<and> (tail = [] \<or> is_line_terminator (hd tail))"
  proof (intro conjI impI)
    note m1 = m [THEN conjunct1]
     and m2 = m [THEN conjunct2, THEN conjunct1]
     and m3 = m [THEN conjunct2, THEN conjunct2, THEN conjunct1]
     and m4 = m [THEN conjunct2, THEN conjunct2, THEN conjunct2, THEN conjunct1]
     and m5 = m [THEN conjunct2, THEN conjunct2, THEN conjunct2, THEN conjunct2, THEN conjunct1]
     and m6 = m [THEN conjunct2, THEN conjunct2, THEN conjunct2, THEN conjunct2, THEN conjunct2]
    show "formattedContent Assistant doc
                 = replace_sections True
                     (lead @ nums @ ''. '' @ entry @ ''\<newline>'' @ replace_numbered tail)"
      by (rule marker_after_title(1) [OF s r i m1 m2 m3 m4 m5 m6])
    assume d: "\<not> includes_str doc ''##''"
    have "\<not> includes_str (pre @ ''# '' @ t @ ''\<newline>'' @ rest) ''##''"
      by (rule heading_keeps_no_double_hash [OF d [unfolded shape] line])
    then show "formattedContent Assistant doc
                      = lead @ nums @ ''. '' @ entry @ ''\<newline>'' @ replace_numbered tail"
      by (rule marker_after_title(2) [OF s r i m1 m2 m3 m4 m5 m6])
  qed
qed

text \<open>
  Splitting a text at each position, for the first-match condition on a given text.
\<close>

lemma no_marker_Nil: "replace_numbered [] = []"
  by (subst replace_numbered.simps) (simp add: match_numbered_def)

lemma suffixes_Nil: "(\<forall>p s. [] = p @ s \<longrightarrow> s \<noteq> [] \<longrightarrow> Q s) = True"
  by simp

lemma suffixes_Cons:
  "(\<forall>p s. c # xs = p @ s \<longrightarrow> s \<noteq> [] \<longrightarrow> Q s)
     \<longleftrightarrow> Q (c # xs) \<and> (\<forall>p s. xs = p @ s \<longrightarrow> s \<noteq> [] \<longrightarrow> Q s)"
  by (auto simp add: Cons_eq_append_conv)

text \<open>
  C9 (confirmed). The normalization is applied to assistant messages only: a user
  message is shown as it is. For an assistant message that does not start with \<^verbatim>\<open>#\<close>,
  the first line that begins, after optional white space, with \<^verbatim>\<open>Title:\<close> followed by a
  title is replaced by the heading \<^verbatim>\<open>#\<close> and the title, before the two other replacements
  run; when the message holds no \<^verbatim>\<open>#\<close> and no \<^verbatim>\<open>*\<close>, that is the whole effect.
  The first marker \<^verbatim>\<open>**N.**\<close> of the text, that is the first position where the pattern
  matches, whatever stands before it (bold text included), becomes \<^verbatim>\<open>N.\<close> followed by a
  space, the rest of its line as it is and a line feed, the search for markers going on
  after the line; so only the first marker of a line is rewritten, a second marker on the
  same line stays. This holds for the text with the promoted title, when a title was
  promoted, and for the message itself, when none was (it starts with \<^verbatim>\<open>#\<close>, or has no
  \<^verbatim>\<open>Title:\<close>, or no line begins with it). The replacement of section headers runs on
  the result; when the message has no \<^verbatim>\<open>##\<close> it changes nothing and the text given is
  the text displayed.
\<close>

theorem normalization_for_assistant_only:
  "formattedContent User raw = raw
   \<and> (\<not> prefix ''#'' doc \<and> doc = pre @ ind @ ''Title:'' @ gap @ t @ rest
      \<and> (pre = [] \<or> is_line_terminator (last pre))
      \<and> (\<forall>p s. pre = p @ s \<longrightarrow> s \<noteq> [] \<longrightarrow> (p = [] \<or> is_line_terminator (last p))
             \<longrightarrow> \<not> prefix ''Title:''
                   (dropWhile is_space (s @ ind @ ''Title:'' @ gap @ t @ rest)))
      \<and> (\<forall>c\<in>set ind. is_space c) \<and> (\<forall>c\<in>set gap. is_space c)
      \<and> t \<noteq> [] \<and> \<not> is_space (hd t) \<and> (\<forall>c\<in>set t. \<not> is_line_terminator c)
      \<and> (rest = [] \<or> is_line_terminator (hd rest))
     \<longrightarrow> formattedContent Assistant doc
           = replace_sections True (replace_numbered (pre @ ''# '' @ t @ ''\<newline>'' @ rest))
         \<and> (CHR ''#'' \<notin> set doc \<and> CHR ''*'' \<notin> set doc
            \<longrightarrow> formattedContent Assistant doc = pre @ ''# '' @ t @ ''\<newline>'' @ rest)
         \<and> (pre @ ''# '' @ t @ ''\<newline>'' @ rest = lead @ ''**'' @ nums @ ''.**'' @ entry @ tail
            \<and> (\<forall>p s. lead = p @ s \<longrightarrow> s \<noteq> []
                   \<longrightarrow> match_numbered (s @ ''**'' @ nums @ ''.**'' @ entry @ tail) = None)
            \<and> nums \<noteq> [] \<and> (\<forall>d\<in>set nums. is_digit d)
            \<and> (\<forall>c\<in>set entry. \<not> is_line_terminator c)
            \<and> (tail = [] \<or> is_line_terminator (hd tail))
           \<longrightarrow> formattedContent Assistant doc
                 = replace_sections True
                     (lead @ nums @ ''. '' @ entry @ ''\<newline>'' @ replace_numbered tail)
               \<and> (\<not> includes_str doc ''##''
                  \<longrightarrow> formattedContent Assistant doc
                      = lead @ nums @ ''. '' @ entry @ ''\<newline>'' @ replace_numbered tail)))
   \<and> ((prefix ''#'' msg \<or> \<not> includes_str msg ''Title:''
        \<or> (\<forall>p s. msg = p @ s \<longrightarrow> (p = [] \<or> is_line_terminator (last p))
               \<longrightarrow> \<not> prefix ''Title:'' (dropWhile is_space s)))
      \<and> msg = before @ ''**'' @ ds @ ''.**'' @ item @ after
      \<and> (\<forall>p s. before = p @ s \<longrightarrow> s \<noteq> []
             \<longrightarrow> match_numbered (s @ ''**'' @ ds @ ''.**'' @ item @ after) = None)
      \<and> ds \<noteq> [] \<and> (\<forall>d\<in>set ds. is_digit d)
      \<and> (\<forall>c\<in>set item. \<not> is_line_terminator c)
      \<and> (after = [] \<or> is_line_terminator (hd after))
     \<longrightarrow> formattedContent Assistant msg
           = replace_sections True
               (before @ ds @ ''. '' @ item @ ''\<newline>'' @ replace_numbered after)
         \<and> (\<not> includes_str msg ''##''
            \<longrightarrow> formattedContent Assistant msg
                = before @ ds @ ''. '' @ item @ ''\<newline>'' @ replace_numbered after)
         \<and> (\<not> includes_str msg ''##'' \<and> \<not> includes_str msg ''Title:''
            \<longrightarrow> formattedContent Assistant msg
                = before @ ds @ ''. '' @ item @ ''\<newline>'' @ formattedContent Assistant after))"
  (is "_ \<and> (?titled \<longrightarrow> ?title) \<and> (?marked \<longrightarrow> ?marker)")
proof -
  have user: "formattedContent User raw = raw" by (simp add: formattedContent_def)
  have title: "?title" if h: "?titled"
  proof -
    note h1 = h [THEN conjunct1]
     and h2 = h [THEN conjunct2, THEN conjunct1]
     and h3 = h [THEN conjunct2, THEN conjunct2, THEN conjunct1]
     and h4 = h [THEN conjunct2, THEN conjunct2, THEN conjunct2, THEN conjunct1]
     and h5 = h [THEN conjunct2, THEN conjunct2, THEN conjunct2, THEN conjunct2, THEN conjunct1]
     and h6 = h [THEN conjunct2, THEN conjunct2, THEN conjunct2, THEN conjunct2, THEN conjunct2,
                 THEN conjunct1]
     and h7 = h [THEN conjunct2, THEN conjunct2, THEN conjunct2, THEN conjunct2, THEN conjunct2,
                 THEN conjunct2, THEN conjunct1]
     and h8 = h [THEN conjunct2, THEN conjunct2, THEN conjunct2, THEN conjunct2, THEN conjunct2,
                 THEN conjunct2, THEN conjunct2, THEN conjunct1]
     and h9 = h [THEN conjunct2, THEN conjunct2, THEN conjunct2, THEN conjunct2, THEN conjunct2,
                 THEN conjunct2, THEN conjunct2, THEN conjunct2, THEN conjunct1]
     and h10 = h [THEN conjunct2, THEN conjunct2, THEN conjunct2, THEN conjunct2, THEN conjunct2,
                  THEN conjunct2, THEN conjunct2, THEN conjunct2, THEN conjunct2]
    note l = title_part [OF h1 h2 h3 h4 h5 h6 h7 h8 h9 h10]
    show ?thesis
      apply (rule conjI)
       apply (rule l(1))
      apply (rule conjI)
       apply (rule impI)
       apply (erule l(2))
      apply (rule impI)
      apply (erule l(3))
      done
  qed
  have marker: "?marker" if h: "?marked"
  proof -
    note h1 = h [THEN conjunct1]
     and h2 = h [THEN conjunct2, THEN conjunct1]
     and h3 = h [THEN conjunct2, THEN conjunct2, THEN conjunct1]
     and h4 = h [THEN conjunct2, THEN conjunct2, THEN conjunct2, THEN conjunct1]
     and h5 = h [THEN conjunct2, THEN conjunct2, THEN conjunct2, THEN conjunct2, THEN conjunct1]
     and h6 = h [THEN conjunct2, THEN conjunct2, THEN conjunct2, THEN conjunct2, THEN conjunct2,
                 THEN conjunct1]
     and h7 = h [THEN conjunct2, THEN conjunct2, THEN conjunct2, THEN conjunct2, THEN conjunct2,
                 THEN conjunct2]
    note l = marker_reformatted [OF h1 h2 h3 h4 h5 h6 h7]
    show ?thesis
      apply (rule conjI)
       apply (rule l(1))
      apply (rule conjI)
       apply (rule impI)
       apply (erule l(2))
      apply (rule impI)
      apply (erule conjE)
      apply (erule l(3))
      apply assumption
      done
  qed
  show ?thesis
    apply (rule conjI)
     apply (rule user)
    apply (rule conjI)
     apply (rule impI)
     apply (erule title)
    apply (rule impI)
    apply (erule marker)
    done
qed

theorem normalization_for_assistant_only_witness:
  "formattedContent User ''Title: Plan'' = ''Title: Plan''
   \<and> formattedContent Assistant ''Intro\<newline>Title: Plan\<newline>Body''
        = ''Intro\<newline># Plan\<newline>\<newline>Body''
   \<and> formattedContent Assistant ''Title: Plan\<newline>**1.** First''
        = ''# Plan\<newline>\<newline>1.  First\<newline>''
   \<and> formattedContent Assistant ''**1.** a **2.** b'' = ''1.  a **2.** b\<newline>''
   \<and> formattedContent Assistant ''**Note** **1.** First'' = ''**Note** 1.  First\<newline>''"
proof -
  let ?doc = "''Intro\<newline>Title: Plan\<newline>Body''"
  let ?both = "''Title: Plan\<newline>**1.** First''"
  let ?two = "''**1.** a **2.** b''"
  let ?bold = "''**Note** **1.** First''"
  have first: "\<forall>p s. ''Intro\<newline>'' = p @ s \<longrightarrow> s \<noteq> []
             \<longrightarrow> (p = [] \<or> is_line_terminator (last p))
             \<longrightarrow> \<not> prefix ''Title:''
                   (dropWhile is_space (s @ [] @ ''Title:'' @ '' '' @ ''Plan'' @ ''\<newline>Body''))"
    by (auto simp add: Cons_eq_append_conv is_space_def is_line_terminator_def)
  have h2: "\<not> prefix ''#'' ?doc
      \<and> ?doc = ''Intro\<newline>'' @ [] @ ''Title:'' @ '' '' @ ''Plan'' @ ''\<newline>Body''
      \<and> (''Intro\<newline>'' = [] \<or> is_line_terminator (last ''Intro\<newline>''))
      \<and> (\<forall>p s. ''Intro\<newline>'' = p @ s \<longrightarrow> s \<noteq> []
             \<longrightarrow> (p = [] \<or> is_line_terminator (last p))
             \<longrightarrow> \<not> prefix ''Title:''
                   (dropWhile is_space (s @ [] @ ''Title:'' @ '' '' @ ''Plan'' @ ''\<newline>Body'')))
      \<and> (\<forall>c\<in>set []. is_space c) \<and> (\<forall>c\<in>set '' ''. is_space c)
      \<and> ''Plan'' \<noteq> [] \<and> \<not> is_space (hd ''Plan'')
      \<and> (\<forall>c\<in>set ''Plan''. \<not> is_line_terminator c)
      \<and> (''\<newline>Body'' = [] \<or> is_line_terminator (hd ''\<newline>Body''))"
    using first by (simp add: is_space_def is_line_terminator_def)
  have p2: "CHR ''#'' \<notin> set ?doc \<and> CHR ''*'' \<notin> set ?doc" by simp
  have h3: "\<not> prefix ''#'' ?both
      \<and> ?both = [] @ [] @ ''Title:'' @ '' '' @ ''Plan'' @ ''\<newline>**1.** First''
      \<and> ([] = [] \<or> is_line_terminator (last []))
      \<and> (\<forall>p s. [] = p @ s \<longrightarrow> s \<noteq> []
             \<longrightarrow> (p = [] \<or> is_line_terminator (last p))
             \<longrightarrow> \<not> prefix ''Title:''
                   (dropWhile is_space
                      (s @ [] @ ''Title:'' @ '' '' @ ''Plan'' @ ''\<newline>**1.** First'')))
      \<and> (\<forall>c\<in>set []. is_space c) \<and> (\<forall>c\<in>set '' ''. is_space c)
      \<and> ''Plan'' \<noteq> [] \<and> \<not> is_space (hd ''Plan'')
      \<and> (\<forall>c\<in>set ''Plan''. \<not> is_line_terminator c)
      \<and> (''\<newline>**1.** First'' = [] \<or> is_line_terminator (hd ''\<newline>**1.** First''))"
    by (simp add: is_space_def is_line_terminator_def)
  have m3: "[] @ ''# '' @ ''Plan'' @ ''\<newline>'' @ ''\<newline>**1.** First''
              = ''# Plan\<newline>\<newline>'' @ ''**'' @ ''1'' @ ''.**'' @ '' First'' @ []
      \<and> (\<forall>p s. ''# Plan\<newline>\<newline>'' = p @ s \<longrightarrow> s \<noteq> []
             \<longrightarrow> match_numbered (s @ ''**'' @ ''1'' @ ''.**'' @ '' First'' @ []) = None)
      \<and> ''1'' \<noteq> [] \<and> (\<forall>d\<in>set ''1''. is_digit d)
      \<and> (\<forall>c\<in>set '' First''. \<not> is_line_terminator c)
      \<and> ([] = [] \<or> is_line_terminator (hd []))"
    by (simp add: suffixes_Cons suffixes_Nil match_numbered_def is_digit_def
                  is_line_terminator_def)
  have d3: "\<not> includes_str ?both ''##''" by simp
  have t4: "prefix ''#'' ?two \<or> \<not> includes_str ?two ''Title:''
        \<or> (\<forall>p s. ?two = p @ s \<longrightarrow> (p = [] \<or> is_line_terminator (last p))
               \<longrightarrow> \<not> prefix ''Title:'' (dropWhile is_space s))"
    by (rule disjI2, rule disjI1) simp
  have m4: "?two = [] @ ''**'' @ ''1'' @ ''.**'' @ '' a **2.** b'' @ []
      \<and> (\<forall>p s. [] = p @ s \<longrightarrow> s \<noteq> []
             \<longrightarrow> match_numbered (s @ ''**'' @ ''1'' @ ''.**'' @ '' a **2.** b'' @ []) = None)
      \<and> ''1'' \<noteq> [] \<and> (\<forall>d\<in>set ''1''. is_digit d)
      \<and> (\<forall>c\<in>set '' a **2.** b''. \<not> is_line_terminator c)
      \<and> ([] = [] \<or> is_line_terminator (hd []))"
    by (simp add: is_digit_def is_line_terminator_def)
  have d4: "\<not> includes_str ?two ''##''" by simp
  have t5: "prefix ''#'' ?bold \<or> \<not> includes_str ?bold ''Title:''
        \<or> (\<forall>p s. ?bold = p @ s \<longrightarrow> (p = [] \<or> is_line_terminator (last p))
               \<longrightarrow> \<not> prefix ''Title:'' (dropWhile is_space s))"
    by (rule disjI2, rule disjI1) simp
  have m5: "?bold = ''**Note** '' @ ''**'' @ ''1'' @ ''.**'' @ '' First'' @ []
      \<and> (\<forall>p s. ''**Note** '' = p @ s \<longrightarrow> s \<noteq> []
             \<longrightarrow> match_numbered (s @ ''**'' @ ''1'' @ ''.**'' @ '' First'' @ []) = None)
      \<and> ''1'' \<noteq> [] \<and> (\<forall>d\<in>set ''1''. is_digit d)
      \<and> (\<forall>c\<in>set '' First''. \<not> is_line_terminator c)
      \<and> ([] = [] \<or> is_line_terminator (hd []))"
    by (simp add: suffixes_Cons suffixes_Nil match_numbered_def is_digit_def
                  is_line_terminator_def)
  have d5: "\<not> includes_str ?bold ''##''" by simp
  note one = normalization_for_assistant_only
         [where raw = "''Title: Plan''" and doc = ?doc and pre = "''Intro\<newline>''" and ind = "[]"
            and gap = "'' ''" and t = "''Plan''" and rest = "''\<newline>Body''"
            and msg = ?two and before = "[]" and ds = "''1''"
            and item = "'' a **2.** b''" and after = "[]"]
  note two = normalization_for_assistant_only
         [where doc = ?both and pre = "[]" and ind = "[]"
            and gap = "'' ''" and t = "''Plan''" and rest = "''\<newline>**1.** First''"
            and lead = "''# Plan\<newline>\<newline>''" and nums = "''1''" and entry = "'' First''"
            and tail = "[]"
            and msg = ?bold and before = "''**Note** ''" and ds = "''1''"
            and item = "'' First''" and after = "[]"]
  have a: "formattedContent User ''Title: Plan'' = ''Title: Plan''"
    by (rule one [THEN conjunct1])
  have b: "formattedContent Assistant ?doc
         = ''Intro\<newline>'' @ ''# '' @ ''Plan'' @ ''\<newline>'' @ ''\<newline>Body''"
    by (rule one [THEN conjunct2, THEN conjunct1, THEN mp, OF h2,
                  THEN conjunct2, THEN conjunct1, THEN mp, OF p2])
  have c: "formattedContent Assistant ?both
         = ''# Plan\<newline>\<newline>'' @ ''1'' @ ''. '' @ '' First'' @ ''\<newline>'' @ replace_numbered []"
    by (rule two [THEN conjunct2, THEN conjunct1, THEN mp, OF h3,
                  THEN conjunct2, THEN conjunct2, THEN mp, OF m3,
                  THEN conjunct2, THEN mp, OF d3])
  have d: "formattedContent Assistant ?two
         = [] @ ''1'' @ ''. '' @ '' a **2.** b'' @ ''\<newline>'' @ replace_numbered []"
    by (rule one [THEN conjunct2, THEN conjunct2, THEN mp, OF conjI [OF t4 m4],
                  THEN conjunct2, THEN conjunct1, THEN mp, OF d4])
  have e: "formattedContent Assistant ?bold
         = ''**Note** '' @ ''1'' @ ''. '' @ '' First'' @ ''\<newline>'' @ replace_numbered []"
    by (rule two [THEN conjunct2, THEN conjunct2, THEN mp, OF conjI [OF t5 m5],
                  THEN conjunct2, THEN conjunct1, THEN mp, OF d5])
  show ?thesis
    unfolding a b c d e no_marker_Nil by simp
qed

end
